theory Spec2Isabelle
  imports Main
begin

section \<open>Locators, pages and the site under test\<close>

text \<open>
  The test in \<^verbatim>\<open>tests/episode-01-spotify-unauthenticated-flow.spec.ts\<close> drives a
  third-party page through a browser-automation library. A locator is a description of
  how to find elements; it is built without touching the page. The constructors are the
  locator-building calls the test makes: \<^verbatim>\<open>page.getByTestId(id)\<close>,
  \<^verbatim>\<open>page.getByText(text, {exact})\<close>, \<^verbatim>\<open>page.getByRole(role, {name})\<close>,
  \<^verbatim>\<open>page.locator(selector)\<close>, \<^verbatim>\<open>loc.filter({hasText})\<close>,
  \<^verbatim>\<open>loc.locator(selector, {hasText})\<close>, \<^verbatim>\<open>loc.first()\<close> and \<^verbatim>\<open>loc.nth(i)\<close>.
\<close>

datatype textpat = Lit string | Regex string string

datatype locator =
    GetByTestId string
  | GetByText string bool
  | GetByRole string "textpat option"
  | Css string
  | Filter locator textpat
  | Within locator string textpat
  | First locator
  | Nth locator nat

record element =
  el_id :: nat
  el_text :: "string option"
  el_visible :: bool
  el_enabled :: bool
  el_editable :: bool
  el_focused :: bool
  el_value :: string
  el_attrs :: "(string \<times> string) list"

text \<open>
  A page is what the browser renders at one moment: its address, its title, the load
  states it has reached, and, for every query, the elements that match it in document
  order. How a selector or a text filter matches the markup is the browser's business,
  so the page answers queries itself; \<^verbatim>\<open>first()\<close> and \<^verbatim>\<open>nth(i)\<close> select from
  the answer by position.
\<close>

record page =
  url :: string
  title :: string
  load_states :: "string list"
  query :: "locator \<Rightarrow> element list"

fun resolve :: "page \<Rightarrow> locator \<Rightarrow> element list" where
  "resolve p (First l) = take 1 (resolve p l)"
| "resolve p (Nth l i) = take 1 (drop i (resolve p l))"
| "resolve p l = query p l"

text \<open>
  Patterns of the assertions on plain strings. Each regular expression the test hands to
  \<^verbatim>\<open>toHaveURL\<close>, \<^verbatim>\<open>toHaveTitle\<close> or \<^verbatim>\<open>toMatch\<close> is a literal with or
  without the \<^verbatim>\<open>i\<close> flag, so it holds exactly of the strings that contain the
  literal (\<open>Has\<close>) or contain it up to the case of ASCII letters (\<open>HasI\<close>). The
  second comparison is made on character codes, with the codes of \<^verbatim>\<open>A\<close> to
  \<^verbatim>\<open>Z\<close> lowered.
\<close>

datatype strpat = Has string | HasI string

fun startsWith :: "string \<Rightarrow> string \<Rightarrow> bool" where
  "startsWith [] ys = True"
| "startsWith (x # xs) [] = False"
| "startsWith (x # xs) (y # ys) = (x = y \<and> startsWith xs ys)"

fun containsStr :: "string \<Rightarrow> string \<Rightarrow> bool" where
  "containsStr n [] = (n = [])"
| "containsStr n (y # ys) = (startsWith n (y # ys) \<or> containsStr n ys)"

definition lowerCode :: "char \<Rightarrow> nat" where
  "lowerCode c = (let n = of_char c in if 65 \<le> n \<and> n \<le> 90 then n + 32 else n)"

definition toLowerCase :: "string \<Rightarrow> nat list" where
  "toLowerCase s = map lowerCode s"

fun startsWithCodes :: "nat list \<Rightarrow> nat list \<Rightarrow> bool" where
  "startsWithCodes [] ys = True"
| "startsWithCodes (x # xs) [] = False"
| "startsWithCodes (x # xs) (y # ys) = (x = y \<and> startsWithCodes xs ys)"

fun containsCodes :: "nat list \<Rightarrow> nat list \<Rightarrow> bool" where
  "containsCodes n [] = (n = [])"
| "containsCodes n (y # ys) = (startsWithCodes n (y # ys) \<or> containsCodes n ys)"

fun holds :: "strpat \<Rightarrow> string \<Rightarrow> bool" where
  "holds (Has n) s = containsStr n s"
| "holds (HasI n) s = containsCodes (toLowerCase n) (toLowerCase s)"

text \<open>
  A string is the list of its code units; those of the test's own data are all below
  256. Among them \<^verbatim>\<open>trim()\<close> strips the white space and the line terminators of
  the language: tab, line feed, vertical tab, form feed, carriage return, space and the
  no-break space.
\<close>

definition isSpace :: "char \<Rightarrow> bool" where
  "isSpace c = ((of_char c :: nat) \<in> {9, 10, 11, 12, 13, 32, 160})"

definition trim :: "string \<Rightarrow> string" where
  "trim s = rev (dropWhile isSpace (rev (dropWhile isSpace s)))"

section \<open>Calls, errors and the run state\<close>

text \<open>
  Every awaited library call of the test is a \<open>call\<close>. The run keeps the calls it has
  issued, in order, and the names of the steps it has entered.
\<close>

datatype call =
    ClearCookies
  | SetViewportSize nat nat
  | Goto string
  | WaitForLoadState string
  | Screenshot string
  | PageUrl
  | ExpectURL strpat
  | ExpectTitle strpat
  | WaitFor locator nat
  | WaitForRace locator locator nat
  | ExpectVisible locator
  | ExpectEnabled locator
  | ExpectEditable locator
  | ExpectFocused locator
  | ExpectValue locator string
  | IsVisible locator
  | Count locator
  | TextContent locator
  | GetAttribute locator string
  | Click locator
  | Fill locator string
  | Clear locator

text \<open>
  Errors. \<open>TimeoutError\<close>: a bounded wait lapsed. \<open>StrictModeViolation\<close>: a call that
  needs one element was made on a locator that resolves to several. \<open>ExpectFailed\<close>: an
  \<^verbatim>\<open>expect(locator)\<close> or \<^verbatim>\<open>expect(page)\<close> assertion did not come to hold within the
  configured 5000 ms. \<open>AssertionFailed\<close>: an \<^verbatim>\<open>expect(value)\<close> assertion on a value
  already read. \<open>Thrown\<close>: \<^verbatim>\<open>throw new Error(message)\<close>. \<open>Hung\<close>: a call with no
  timeout of its own (\<^verbatim>\<open>actionTimeout: 0\<close> and no \<^verbatim>\<open>navigationTimeout\<close> in
  \<^verbatim>\<open>playwright.config.ts\<close>) never found its element or its load state; the run ends
  there, cut by the runner, and no \<^verbatim>\<open>catch\<close> of the test resumes it.
\<close>

datatype error =
    TimeoutError call
  | StrictModeViolation call
  | ExpectFailed call
  | AssertionFailed string
  | Thrown string
  | Hung call

fun fatal :: "error \<Rightarrow> bool" where
  "fatal (Hung c) = True"
| "fatal e = False"

text \<open>
  The site is not under the test's control. It is a state of some type \<open>'w\<close>, a
  rendering of each state, and a reaction to each call: \<open>react site c w\<close> is the state
  of the site when the call \<open>c\<close>, issued in state \<open>w\<close>, ends. Time passing during a
  wait, a navigation, the effect of a click: all of it is in \<open>react\<close>.
\<close>

record 'w site =
  react :: "call \<Rightarrow> 'w \<Rightarrow> 'w"
  render :: "'w \<Rightarrow> page"

record 'w st =
  world :: 'w
  trace :: "call list"
  steps :: "string list"

type_synonym ('a, 'w) prog = "'w st \<Rightarrow> (error + 'a) \<times> 'w st"

definition ret :: "'a \<Rightarrow> ('a, 'w) prog" where
  "ret a s = (Inr a, s)"

definition throw :: "error \<Rightarrow> ('a, 'w) prog" where
  "throw e s = (Inl e, s)"

definition andThen :: "('a, 'w) prog \<Rightarrow> ('a \<Rightarrow> ('b, 'w) prog) \<Rightarrow> ('b, 'w) prog" where
  "andThen m f s = (case m s of (Inl e, s') \<Rightarrow> (Inl e, s') | (Inr a, s') \<Rightarrow> f a s')"

definition seq :: "('a, 'w) prog \<Rightarrow> ('b, 'w) prog \<Rightarrow> ('b, 'w) prog" where
  "seq m n = andThen m (\<lambda>_. n)"

text \<open>\<^verbatim>\<open>try { m } catch { h }\<close>: the handler continues from the state the body left.\<close>

definition try_catch :: "('a, 'w) prog \<Rightarrow> ('a, 'w) prog \<Rightarrow> ('a, 'w) prog" where
  "try_catch m h s =
     (case m s of
        (Inl e, s') \<Rightarrow> if fatal e then (Inl e, s') else h s'
      | (Inr a, s') \<Rightarrow> (Inr a, s'))"

definition issue :: "'w site \<Rightarrow> call \<Rightarrow> 'w st \<Rightarrow> 'w st" where
  "issue site c s = s\<lparr>world := react site c (world s), trace := trace s @ [c]\<rparr>"

definition logCall :: "call \<Rightarrow> 'w st \<Rightarrow> 'w st" where
  "logCall c s = s\<lparr>trace := trace s @ [c]\<rparr>"

definition seen :: "'w site \<Rightarrow> 'w st \<Rightarrow> page" where
  "seen site s = render site (world s)"

section \<open>The library's calls\<close>

text \<open>
  Calls that need one element are strict: on a locator that resolves to several
  elements they raise instead of choosing one. Only \<^verbatim>\<open>count()\<close> accepts any number.
\<close>

definition the_one :: "call \<Rightarrow> page \<Rightarrow> locator \<Rightarrow> error + element option" where
  "the_one c p l =
     (case resolve p l of
        [] \<Rightarrow> Inr None
      | [e] \<Rightarrow> Inr (Some e)
      | e # e' # es \<Rightarrow> Inl (StrictModeViolation c))"

text \<open>
  A bounded wait for a property of the locator's element (\<^verbatim>\<open>locator.waitFor\<close> and the
  \<^verbatim>\<open>expect(locator)\<close> assertions): the outcome is read off the page as it is when the
  wait ends; \<open>lapse\<close> is the error of a wait that ends without the property.
\<close>

definition await :: "'w site \<Rightarrow> call \<Rightarrow> error \<Rightarrow> locator \<Rightarrow> (element \<Rightarrow> bool) \<Rightarrow> (unit, 'w) prog" where
  "await site c lapse l P s =
     (let s' = issue site c s in
      case the_one c (seen site s') l of
        Inl e \<Rightarrow> (Inl e, s')
      | Inr None \<Rightarrow> (Inl lapse, s')
      | Inr (Some e) \<Rightarrow> if P e then (Inr (), s') else (Inl lapse, s'))"

definition waitFor :: "'w site \<Rightarrow> locator \<Rightarrow> nat \<Rightarrow> (unit, 'w) prog" where
  "waitFor site l t = await site (WaitFor l t) (TimeoutError (WaitFor l t)) l el_visible"

definition expectVisible :: "'w site \<Rightarrow> locator \<Rightarrow> (unit, 'w) prog" where
  "expectVisible site l = await site (ExpectVisible l) (ExpectFailed (ExpectVisible l)) l el_visible"

definition expectEnabled :: "'w site \<Rightarrow> locator \<Rightarrow> (unit, 'w) prog" where
  "expectEnabled site l = await site (ExpectEnabled l) (ExpectFailed (ExpectEnabled l)) l el_enabled"

definition expectEditable :: "'w site \<Rightarrow> locator \<Rightarrow> (unit, 'w) prog" where
  "expectEditable site l = await site (ExpectEditable l) (ExpectFailed (ExpectEditable l)) l el_editable"

definition expectFocused :: "'w site \<Rightarrow> locator \<Rightarrow> (unit, 'w) prog" where
  "expectFocused site l = await site (ExpectFocused l) (ExpectFailed (ExpectFocused l)) l el_focused"

definition expectValue :: "'w site \<Rightarrow> locator \<Rightarrow> string \<Rightarrow> (unit, 'w) prog" where
  "expectValue site l v =
     await site (ExpectValue l v) (ExpectFailed (ExpectValue l v)) l (\<lambda>e. el_value e = v)"

text \<open>
  \<^verbatim>\<open>Promise.race\<close> of two \<^verbatim>\<open>first().waitFor\<close> calls with one timeout: neither
  locator can resolve to several elements, so the race is won as soon as either element
  is visible and lost when both waits lapse.
\<close>

definition visibleFirst :: "page \<Rightarrow> locator \<Rightarrow> bool" where
  "visibleFirst p l = (case resolve p (First l) of [] \<Rightarrow> False | e # es \<Rightarrow> el_visible e)"

definition waitForRace :: "'w site \<Rightarrow> locator \<Rightarrow> locator \<Rightarrow> nat \<Rightarrow> (unit, 'w) prog" where
  "waitForRace site l1 l2 t s =
     (let c = WaitForRace (First l1) (First l2) t; s' = issue site c s in
      if visibleFirst (seen site s') l1 \<or> visibleFirst (seen site s') l2
      then (Inr (), s') else (Inl (TimeoutError c), s'))"

text \<open>
  Reads of one element, without a timeout: \<^verbatim>\<open>textContent()\<close> and
  \<^verbatim>\<open>getAttribute(name)\<close> wait for the element to exist.
\<close>

definition readEl :: "'w site \<Rightarrow> call \<Rightarrow> locator \<Rightarrow> (element \<Rightarrow> 'a) \<Rightarrow> ('a, 'w) prog" where
  "readEl site c l f s =
     (let s' = issue site c s in
      case the_one c (seen site s') l of
        Inl e \<Rightarrow> (Inl e, s')
      | Inr None \<Rightarrow> (Inl (Hung c), s')
      | Inr (Some e) \<Rightarrow> (Inr (f e), s'))"

definition textContent :: "'w site \<Rightarrow> locator \<Rightarrow> (string option, 'w) prog" where
  "textContent site l = readEl site (TextContent l) l el_text"

definition getAttribute :: "'w site \<Rightarrow> locator \<Rightarrow> string \<Rightarrow> (string option, 'w) prog" where
  "getAttribute site l n = readEl site (GetAttribute l n) l (\<lambda>e. map_of (el_attrs e) n)"

text \<open>\<^verbatim>\<open>isVisible()\<close> does not wait: no element is \<open>False\<close>. \<^verbatim>\<open>count()\<close> never raises.\<close>

definition isVisible :: "'w site \<Rightarrow> locator \<Rightarrow> (bool, 'w) prog" where
  "isVisible site l s =
     (let c = IsVisible l; s' = issue site c s in
      case the_one c (seen site s') l of
        Inl e \<Rightarrow> (Inl e, s')
      | Inr None \<Rightarrow> (Inr False, s')
      | Inr (Some e) \<Rightarrow> (Inr (el_visible e), s'))"

definition count :: "'w site \<Rightarrow> locator \<Rightarrow> (nat, 'w) prog" where
  "count site l s = (let s' = issue site (Count l) s in (Inr (length (resolve (seen site s') l)), s'))"

text \<open>
  Actions on one element, without a timeout. The action is judged on the page as it
  stands when the call is made; the site reacts only to an action that is carried out.
\<close>

definition act :: "'w site \<Rightarrow> call \<Rightarrow> locator \<Rightarrow> (element \<Rightarrow> bool) \<Rightarrow> (unit, 'w) prog" where
  "act site c l ready s =
     (case the_one c (seen site s) l of
        Inl e \<Rightarrow> (Inl e, logCall c s)
      | Inr None \<Rightarrow> (Inl (Hung c), logCall c s)
      | Inr (Some e) \<Rightarrow> if ready e then (Inr (), issue site c s) else (Inl (Hung c), logCall c s))"

definition click :: "'w site \<Rightarrow> locator \<Rightarrow> (unit, 'w) prog" where
  "click site l = act site (Click l) l (\<lambda>e. el_visible e \<and> el_enabled e)"

definition fill :: "'w site \<Rightarrow> locator \<Rightarrow> string \<Rightarrow> (unit, 'w) prog" where
  "fill site l v = act site (Fill l v) l (\<lambda>e. el_visible e \<and> el_enabled e \<and> el_editable e)"

definition clear :: "'w site \<Rightarrow> locator \<Rightarrow> (unit, 'w) prog" where
  "clear site l = act site (Clear l) l (\<lambda>e. el_visible e \<and> el_enabled e \<and> el_editable e)"

text \<open>
  Calls on the page as a whole. A navigation and a wait for a load state have no timeout
  of their own (the configuration sets no \<^verbatim>\<open>navigationTimeout\<close>): when the load state
  is not reached the call hangs. The assertions on the address and the title are bounded
  by the configured 5000 ms.
\<close>

definition goto :: "'w site \<Rightarrow> string \<Rightarrow> (unit, 'w) prog" where
  "goto site u s =
     (let s' = issue site (Goto u) s in
      if ''load'' \<in> set (load_states (seen site s')) then (Inr (), s')
      else (Inl (Hung (Goto u)), s'))"

definition waitForLoadState :: "'w site \<Rightarrow> string \<Rightarrow> (unit, 'w) prog" where
  "waitForLoadState site x s =
     (let s' = issue site (WaitForLoadState x) s in
      if x \<in> set (load_states (seen site s')) then (Inr (), s')
      else (Inl (Hung (WaitForLoadState x)), s'))"

definition expectURL :: "'w site \<Rightarrow> strpat \<Rightarrow> (unit, 'w) prog" where
  "expectURL site pat s =
     (let s' = issue site (ExpectURL pat) s in
      if holds pat (url (seen site s')) then (Inr (), s')
      else (Inl (ExpectFailed (ExpectURL pat)), s'))"

definition expectTitle :: "'w site \<Rightarrow> strpat \<Rightarrow> (unit, 'w) prog" where
  "expectTitle site pat s =
     (let s' = issue site (ExpectTitle pat) s in
      if holds pat (title (seen site s')) then (Inr (), s')
      else (Inl (ExpectFailed (ExpectTitle pat)), s'))"

definition pageUrl :: "'w site \<Rightarrow> (string, 'w) prog" where
  "pageUrl site s = (let s' = issue site PageUrl s in (Inr (url (seen site s')), s'))"

text \<open>
  Evidence and set-up calls: a screenshot is taken, cookies are cleared and the viewport
  is set without a condition on the page.
\<close>

definition screenshot :: "'w site \<Rightarrow> string \<Rightarrow> (unit, 'w) prog" where
  "screenshot site path s = (Inr (), issue site (Screenshot path) s)"

definition clearCookies :: "'w site \<Rightarrow> (unit, 'w) prog" where
  "clearCookies site s = (Inr (), issue site ClearCookies s)"

definition setViewportSize :: "'w site \<Rightarrow> nat \<Rightarrow> nat \<Rightarrow> (unit, 'w) prog" where
  "setViewportSize site w h s = (Inr (), issue site (SetViewportSize w h) s)"

text \<open>\<^verbatim>\<open>expect(value)\<close> on a value already read.\<close>

definition expectThat :: "bool \<Rightarrow> string \<Rightarrow> (unit, 'w) prog" where
  "expectThat b what = (if b then ret () else throw (AssertionFailed what))"

definition toBeTruthy :: "string option \<Rightarrow> bool" where
  "toBeTruthy t = (case t of None \<Rightarrow> False | Some x \<Rightarrow> x \<noteq> [])"

definition trimmedLength :: "string option \<Rightarrow> nat option" where
  "trimmedLength t = map_option (\<lambda>x. length (trim x)) t"

definition toBeGreaterThan :: "nat option \<Rightarrow> nat \<Rightarrow> bool" where
  "toBeGreaterThan v n = (case v of None \<Rightarrow> False | Some k \<Rightarrow> n < k)"

definition toMatch :: "string option \<Rightarrow> strpat \<Rightarrow> bool" where
  "toMatch t pat = (case t of None \<Rightarrow> False | Some x \<Rightarrow> holds pat x)"

text \<open>A sequence of statements, and \<^verbatim>\<open>test.step(name, body)\<close>.\<close>

fun block :: "(unit, 'w) prog list \<Rightarrow> (unit, 'w) prog" where
  "block [] = ret ()"
| "block (m # ms) = seq m (block ms)"

definition test_step :: "string \<Rightarrow> (unit, 'w) prog \<Rightarrow> (unit, 'w) prog" where
  "test_step name body s = body (s\<lparr>steps := steps s @ [name]\<rparr>)"

section \<open>The journey, step by step\<close>

text \<open>
  Each definition below is one \<^verbatim>\<open>test.step\<close> body of the test, statement by
  statement, with \<^verbatim>\<open>console.log\<close> left out. Locators keep the names of the
  variables that hold them.
\<close>

definition beforeEach :: "'w site \<Rightarrow> (unit, 'w) prog" where
  "beforeEach site = block [clearCookies site, setViewportSize site 1366 768]"

subsection \<open>Navigate to Spotify Web homepage\<close>

definition navigateToHomepage :: "'w site \<Rightarrow> (unit, 'w) prog" where
  "navigateToHomepage site = block
     [goto site ''https://open.spotify.com/'',
      waitForLoadState site ''domcontentloaded'',
      expectURL site (Has ''open.spotify.com''),
      expectTitle site (HasI ''Spotify''),
      screenshot site ''evidence/01-spotify-homepage-loaded.png'']"

subsection \<open>Locate and validate language selection button\<close>

definition languageButton :: locator where
  "languageButton = GetByTestId ''language-selection-button''"

definition validateLanguageButton :: "'w site \<Rightarrow> (unit, 'w) prog" where
  "validateLanguageButton site = block
     [expectVisible site languageButton,
      expectEnabled site languageButton,
      andThen (textContent site languageButton) (\<lambda>buttonText. block
        [expectThat (toBeTruthy buttonText) ''buttonText truthy'',
         expectThat (toBeGreaterThan (trimmedLength buttonText) 0) ''buttonText not blank'']),
      screenshot site ''evidence/02-language-button-located.png'']"

subsection \<open>Open language selection menu\<close>

definition languageDropdown :: locator where
  \<open>languageDropdown =
     Css ''[role="listbox"], [role="menu"], .language-dropdown, [data-testid*="language"]''\<close>

definition languageOptions :: locator where
  \<open>languageOptions = Css ''[role="option"], [role="menuitem"]''\<close>

definition openLanguageMenu :: "'w site \<Rightarrow> (unit, 'w) prog" where
  "openLanguageMenu site = block
     [click site languageButton,
      try_catch
        (block
          [waitForRace site languageDropdown languageOptions 3000,
           seq (count site languageOptions) (ret ()),
           screenshot site ''evidence/03-language-selection-opened.png''])
        (screenshot site ''evidence/03-language-click-result.png'')]"

subsection \<open>Select Portuguese (Brazil) language option\<close>

definition ptBROption :: locator where
  "ptBROption = GetByTestId ''language-option-pt-BR''"

definition selectPortuguese :: "'w site \<Rightarrow> (unit, 'w) prog" where
  "selectPortuguese site = block
     [expectVisible site ptBROption,
      expectEnabled site ptBROption,
      andThen (textContent site ptBROption) (\<lambda>optionText. block
        [expectThat (toBeTruthy optionText) ''optionText truthy'',
         expectThat (toBeGreaterThan (trimmedLength optionText) 0) ''optionText not blank'']),
      screenshot site ''evidence/04-before-selecting-pt-br.png'',
      click site ptBROption,
      waitForLoadState site ''networkidle'']"

subsection \<open>Validate language change took effect\<close>

definition portugueseElements :: locator where
  "portugueseElements =
     Css (''text=/Pesquisar|Entrar|Criar conta|Portugu'' @ [CHR 0xEA] @ ''s|Brasil/i'')"

definition languageButtonCheck :: "'w site \<Rightarrow> (unit, 'w) prog" where
  "languageButtonCheck site = block
     [expectVisible site languageButton,
      seq (textContent site languageButton) (ret ())]"

definition portugueseTextCheck :: "'w site \<Rightarrow> (unit, 'w) prog" where
  "portugueseTextCheck site =
     try_catch
       (block
         [waitFor site (First portugueseElements) 5000,
          seq (count site portugueseElements) (ret ()),
          seq (textContent site (First portugueseElements)) (ret ())])
       (ret ())"

definition validateLanguageChange :: "'w site \<Rightarrow> (unit, 'w) prog" where
  "validateLanguageChange site = block
     [languageButtonCheck site,
      portugueseTextCheck site,
      screenshot site ''evidence/05-after-selecting-pt-br.png'']"

subsection \<open>Locate and interact with search input field\<close>

definition searchInput :: locator where
  "searchInput = GetByTestId ''search-input''"

definition focusSearchInput :: "'w site \<Rightarrow> (unit, 'w) prog" where
  "focusSearchInput site = block
     [expectVisible site searchInput,
      expectEnabled site searchInput,
      expectEditable site searchInput,
      andThen (getAttribute site searchInput ''placeholder'') (\<lambda>placeholder.
        expectThat (toBeTruthy placeholder) ''placeholder truthy''),
      screenshot site ''evidence/06-before-clicking-search.png'',
      click site searchInput,
      expectFocused site searchInput]"

subsection \<open>Type search query for Pink Floyd\<close>

definition searchQuery :: string where
  "searchQuery = ''pink floyd''"

definition searchSuggestions :: locator where
  \<open>searchSuggestions = Css ''[data-testid*="search"], [role="listbox"], .search-suggestions''\<close>

definition enterQuery :: "'w site \<Rightarrow> (unit, 'w) prog" where
  "enterQuery site = block
     [clear site searchInput,
      fill site searchInput searchQuery,
      expectValue site searchInput searchQuery,
      screenshot site ''evidence/07-search-query-entered.png'']"

definition suggestionsCheck :: "'w site \<Rightarrow> (unit, 'w) prog" where
  "suggestionsCheck site =
     try_catch
       (block
         [waitFor site (First searchSuggestions) 2000,
          seq (count site searchSuggestions) (ret ()),
          screenshot site ''evidence/08-search-suggestions-appeared.png''])
       (ret ())"

definition typeSearchQuery :: "'w site \<Rightarrow> (unit, 'w) prog" where
  "typeSearchQuery site = block [enterQuery site, suggestionsCheck site]"

subsection \<open>Wait for search results and locate The Dark Side of the Moon album\<close>

definition albumTitle :: string where
  "albumTitle = ''The Dark Side of the Moon''"

definition exactText :: locator where
  "exactText = GetByText albumTitle True"

definition partialText :: locator where
  "partialText = Css ''text=The Dark Side of the Moon''"

definition titleAttribute :: locator where
  \<open>titleAttribute = Css ''[title*="The Dark Side of the Moon"]''\<close>

definition cardFallback :: locator where
  \<open>cardFallback = Filter (Css ''[data-testid*="card"]'') (Lit albumTitle)\<close>

text \<open>
  The four strategies, in the order of the nested \<^verbatim>\<open>try\<close>/\<^verbatim>\<open>catch\<close>: the locator
  assigned to \<^verbatim>\<open>darkSideAlbum\<close>, the timeout of its wait, and the value given to
  \<^verbatim>\<open>selectorUsed\<close> when the wait succeeds.
\<close>

definition albumStrategies :: "(locator \<times> nat \<times> string) list" where
  "albumStrategies =
     [(exactText, 5000, ''exact text match''),
      (partialText, 3000, ''partial text match''),
      (titleAttribute, 3000, ''title attribute''),
      (cardFallback, 3000, ''data-testid + text filter fallback'')]"

definition tryStrategy :: "'w site \<Rightarrow> locator \<times> nat \<times> string \<Rightarrow> (locator \<times> string, 'w) prog" where
  "tryStrategy site x = (case x of (l, t, name) \<Rightarrow> seq (waitFor site l t) (ret (l, name)))"

definition locateDarkSideAlbum :: "'w site \<Rightarrow> (locator \<times> string, 'w) prog" where
  "locateDarkSideAlbum site =
     try_catch (tryStrategy site (exactText, 5000, ''exact text match''))
       (try_catch (tryStrategy site (partialText, 3000, ''partial text match''))
          (try_catch (tryStrategy site (titleAttribute, 3000, ''title attribute''))
             (tryStrategy site (cardFallback, 3000, ''data-testid + text filter fallback''))))"

definition locateAlbumInResults :: "'w site \<Rightarrow> (unit, 'w) prog" where
  "locateAlbumInResults site = block
     [waitForLoadState site ''networkidle'',
      andThen (locateDarkSideAlbum site) (\<lambda>(darkSideAlbum, selectorUsed). block
        [expectVisible site darkSideAlbum,
         andThen (textContent site darkSideAlbum) (\<lambda>albumText.
           expectThat (toMatch albumText (HasI albumTitle)) ''albumText matches''),
         expectEnabled site darkSideAlbum,
         screenshot site ''evidence/09-search-results-with-dark-side.png''])]"

subsection \<open>Click on The Dark Side of the Moon album\<close>

definition albumPageIndicators :: "locator list" where
  \<open>albumPageIndicators =
     [Filter (Css ''h1'') (Regex albumTitle ''i''),
      Css ''[data-testid="album-title"]'',
      Css ''[data-testid="entity-title"]'',
      GetByText albumTitle False]\<close>

text \<open>
  The \<^verbatim>\<open>for\<close> loop over the indicators: \<^verbatim>\<open>break\<close> with
  \<^verbatim>\<open>albumPageConfirmed = true\<close> after the first indicator that is visible and whose
  text matches, \<^verbatim>\<open>continue\<close> on any error of the body.
\<close>

fun confirmAlbumPage :: "'w site \<Rightarrow> locator list \<Rightarrow> (bool, 'w) prog" where
  "confirmAlbumPage site [] = ret False"
| "confirmAlbumPage site (indicator # rest) =
     try_catch
       (seq (waitFor site indicator 2000)
          (andThen (textContent site indicator) (\<lambda>pageTitle.
             seq (expectThat (toMatch pageTitle (HasI albumTitle)) ''pageTitle matches'')
                 (ret True))))
       (confirmAlbumPage site rest)"

definition openAlbum :: "'w site \<Rightarrow> (unit, 'w) prog" where
  "openAlbum site = block
     [screenshot site ''evidence/10-before-clicking-album.png'',
      andThen
        (try_catch
           (seq (expectVisible site exactText) (ret exactText))
           (seq (expectVisible site (First titleAttribute)) (ret (First titleAttribute))))
        (\<lambda>darkSideAlbum. block
           [expectEnabled site darkSideAlbum,
            click site darkSideAlbum]),
      waitForLoadState site ''networkidle'']"

definition albumPageCheck :: "'w site \<Rightarrow> (unit, 'w) prog" where
  "albumPageCheck site = block
     [andThen (pageUrl site) (\<lambda>currentUrl.
        expectThat (containsStr ''/album/'' currentUrl) ''currentUrl contains /album/''),
      seq (confirmAlbumPage site albumPageIndicators) (ret ()),
      screenshot site ''evidence/11-album-page-loaded.png'']"

definition clickAlbum :: "'w site \<Rightarrow> (unit, 'w) prog" where
  "clickAlbum site = block [openAlbum site, albumPageCheck site]"

subsection \<open>Locate and click the main album play button\<close>

definition playName :: textpat where
  "playName = Regex ''^Play$'' ''i''"

definition tracklistArea :: locator where
  \<open>tracklistArea = Css ''[data-testid="tracklist"], .tracklist, [role="grid"]''\<close>

definition tracklistPlay :: locator where
  "tracklistPlay = Within tracklistArea ''button'' playName"

definition playByRole :: locator where
  "playByRole = First (GetByRole ''button'' (Some playName))"

definition playByText :: locator where
  "playByText = First (Filter (Css ''button'') playName)"

definition allButtons :: locator where
  "allButtons = GetByRole ''button'' None"

text \<open>
  Strategy 1: \<^verbatim>\<open>isInsideTracklist\<close> is the count of Play buttons inside the tracklist
  area being positive; the candidate is accepted when it is visible and
  \<^verbatim>\<open>isInsideTracklist\<close> is false, and the strategy throws otherwise.
\<close>

definition playStrategy1 :: "'w site \<Rightarrow> (locator \<times> string, 'w) prog" where
  "playStrategy1 site =
     andThen (count site tracklistPlay) (\<lambda>n.
       let isInsideTracklist = (0 < n) in
       andThen (isVisible site playByRole) (\<lambda>visible.
         if visible \<and> \<not> isInsideTracklist
         then ret (playByRole, ''role-based main play button'')
         else throw (Thrown ''Main play button not found by role'')))"

definition playStrategy2 :: "'w site \<Rightarrow> (locator \<times> string, 'w) prog" where
  "playStrategy2 site =
     seq (expectVisible site playByText) (ret (playByText, ''text-based main play button''))"

text \<open>
  Strategy 3: the loop over \<^verbatim>\<open>allButtons.nth(i)\<close> for \<open>i\<close> below the count read
  before the loop, with \<open>k\<close> iterations left; it yields the button it breaks on.
\<close>

fun scanButtons :: "'w site \<Rightarrow> nat \<Rightarrow> nat \<Rightarrow> (locator option, 'w) prog" where
  "scanButtons site 0 i = ret None"
| "scanButtons site (Suc k) i =
     andThen (textContent site (Nth allButtons i)) (\<lambda>buttonText.
       if map_option trim buttonText = Some ''Play''
       then andThen (isVisible site (Nth allButtons i)) (\<lambda>visible.
              if visible then ret (Some (Nth allButtons i)) else scanButtons site k (Suc i))
       else scanButtons site k (Suc i))"

text \<open>
  When strategy 3 starts, \<^verbatim>\<open>mainPlayButton\<close> holds the locator strategy 2 assigned
  before its assertion and \<^verbatim>\<open>strategyUsed\<close> is still the empty string; the loop
  overwrites both only when it breaks. The \<^verbatim>\<open>throw\<close> after the loop is guarded by
  \<^verbatim>\<open>!mainPlayButton\<close>.
\<close>

definition playStrategy3 :: "'w site \<Rightarrow> locator option \<Rightarrow> string \<Rightarrow> (locator \<times> string, 'w) prog" where
  "playStrategy3 site mainPlayButton strategyUsed =
     andThen (count site allButtons) (\<lambda>buttonCount.
       andThen (scanButtons site buttonCount 0) (\<lambda>found.
         let (mainPlayButton', strategyUsed') =
               (case found of
                  Some button \<Rightarrow> (Some button, ''fallback - first visible Play button'')
                | None \<Rightarrow> (mainPlayButton, strategyUsed)) in
         case mainPlayButton' of
           None \<Rightarrow> throw (Thrown ''No suitable play button found with any strategy'')
         | Some button \<Rightarrow> ret (button, strategyUsed')))"

definition locateMainPlayButton :: "'w site \<Rightarrow> (locator \<times> string, 'w) prog" where
  "locateMainPlayButton site =
     try_catch (playStrategy1 site)
       (try_catch (playStrategy2 site)
          (playStrategy3 site (Some playByText) []))"

text \<open>
  The step up to the screenshot before the click: resolution, the two assertions on the
  resolved button and the two reads for the log. It yields \<^verbatim>\<open>mainPlayButton\<close>.
\<close>

definition preparePlay :: "'w site \<Rightarrow> (locator, 'w) prog" where
  "preparePlay site =
     seq (waitForLoadState site ''networkidle'')
       (andThen (locateMainPlayButton site) (\<lambda>(mainPlayButton, strategyUsed).
          seq (block
                [expectVisible site mainPlayButton,
                 expectEnabled site mainPlayButton,
                 seq (textContent site mainPlayButton) (ret ()),
                 seq (getAttribute site mainPlayButton ''aria-label'') (ret ()),
                 screenshot site ''evidence/12-before-clicking-play.png''])
              (ret mainPlayButton)))"

definition clickPlayButton :: "'w site \<Rightarrow> (unit, 'w) prog" where
  "clickPlayButton site = andThen (preparePlay site) (\<lambda>mainPlayButton. click site mainPlayButton)"

subsection \<open>Validate play action and handle authentication modal\<close>

definition targetPortugueseText :: string where
  "targetPortugueseText = ''Escute com uma conta gratuita do Spotify''"

definition portugueseAuthText :: locator where
  "portugueseAuthText = GetByText targetPortugueseText False"

definition alternativePortuguesePatterns :: "string list" where
  "alternativePortuguesePatterns =
     [''conta gratuita'', ''Spotify gratuito'', ''Escute'', ''Inscrever-se'', ''Entrar'',
      ''conta do Spotify'']"

text \<open>
  \<open>attempt m\<close> tells whether \<open>m\<close> completed, its error caught. The loop over the
  alternative phrases sets \<^verbatim>\<open>alternativeFound\<close> right after the wait, before the text
  is read, so an error of the read leaves it set while the loop goes on; \<open>found\<close> is the
  flag on entry to an iteration.
\<close>

definition attempt :: "(unit, 'w) prog \<Rightarrow> (bool, 'w) prog" where
  "attempt m = try_catch (seq m (ret True)) (ret False)"

fun findAlternative :: "'w site \<Rightarrow> bool \<Rightarrow> string list \<Rightarrow> (bool, 'w) prog" where
  "findAlternative site found [] = ret found"
| "findAlternative site found (pattern # rest) =
     andThen (attempt (waitFor site (GetByText pattern False) 1000)) (\<lambda>waited.
       if \<not> waited then findAlternative site found rest
       else andThen (attempt (seq (textContent site (GetByText pattern False)) (ret ()))) (\<lambda>read.
              if read then ret True else findAlternative site True rest))"

definition authenticationCheck :: "'w site \<Rightarrow> (unit, 'w) prog" where
  "authenticationCheck site =
     try_catch
       (block
         [waitFor site portugueseAuthText 5000,
          expectVisible site portugueseAuthText,
          seq (textContent site portugueseAuthText) (ret ()),
          screenshot site ''evidence/13-portuguese-authentication-modal.png''])
       (block
         [seq (findAlternative site False alternativePortuguesePatterns) (ret ()),
          screenshot site ''evidence/14-authentication-state-analysis.png''])"

subsection \<open>Final validation and cleanup\<close>

definition albumElements :: locator where
  \<open>albumElements = Css ''h1, [data-testid="album-title"], [data-testid="tracklist"]''\<close>

definition finalValidation :: "'w site \<Rightarrow> (unit, 'w) prog" where
  "finalValidation site = block
     [andThen (pageUrl site) (\<lambda>currentUrl. block
        [expectThat (containsStr ''open.spotify.com'' currentUrl) ''currentUrl contains host'',
         expectThat (containsStr ''/album/'' currentUrl) ''currentUrl contains /album/'']),
      seq (count site albumElements) (ret ()),
      screenshot site ''evidence/15-test-completion-state.png'']"

subsection \<open>The test\<close>

text \<open>
  The steps in the order the test awaits them. A step is entered only when the one
  before it has returned; an error leaves the test.
\<close>

definition journeySteps :: "'w site \<Rightarrow> (string \<times> (unit, 'w) prog) list" where
  "journeySteps site =
     [(''Navigate to Spotify Web homepage'', navigateToHomepage site),
      (''Locate and validate language selection button'', validateLanguageButton site),
      (''Open language selection menu'', openLanguageMenu site),
      (''Select Portuguese (Brazil) language option'', selectPortuguese site),
      (''Validate language change took effect'', validateLanguageChange site),
      (''Locate and interact with search input field'', focusSearchInput site),
      (''Type search query for Pink Floyd'', typeSearchQuery site),
      (''Wait for search results and locate The Dark Side of the Moon album'',
         locateAlbumInResults site),
      (''Click on The Dark Side of the Moon album'', clickAlbum site),
      (''Locate and click the main album play button'', clickPlayButton site),
      (''Validate play action and handle authentication modal'', authenticationCheck site),
      (''Final validation and cleanup'', finalValidation site)]"

fun runSteps :: "(string \<times> (unit, 'w) prog) list \<Rightarrow> (unit, 'w) prog" where
  "runSteps [] = ret ()"
| "runSteps ((name, body) # rest) = seq (test_step name body) (runSteps rest)"

definition journey :: "'w site \<Rightarrow> (unit, 'w) prog" where
  "journey site = seq (beforeEach site) (runSteps (journeySteps site))"

section \<open>Vocabulary of the properties\<close>

text \<open>A result is \<open>isOK\<close> when the program returned without an error.\<close>

definition isOK :: "error + 'a \<Rightarrow> bool" where
  "isOK r = (case r of Inr a \<Rightarrow> True | Inl e \<Rightarrow> False)"

text \<open>
  A strategy has confirmed its candidate when it returned a locator together with a
  non-empty \<^verbatim>\<open>selectorUsed\<close> / \<^verbatim>\<open>strategyUsed\<close>: the test sets that name exactly
  where a strategy's check has succeeded.
\<close>

definition confirmed :: "error + locator \<times> string \<Rightarrow> bool" where
  "confirmed r = (case r of Inr (l, name) \<Rightarrow> name \<noteq> [] | Inl e \<Rightarrow> False)"

text \<open>
  \<open>afterFailed ms s\<close> is the state in which the next strategy is tried when the
  strategies \<open>ms\<close> have been tried in turn from \<open>s\<close>. \<open>firstConfirmed chain k s\<close>:
  strategy \<open>k\<close> is the first of the chain that confirms, each tried in the state left
  by the ones before it. \<open>exhausted chain s\<close>: no strategy of the chain confirms.
\<close>

fun afterFailed :: "('a, 'w) prog list \<Rightarrow> 'w st \<Rightarrow> 'w st" where
  "afterFailed [] s = s"
| "afterFailed (m # ms) s = afterFailed ms (snd (m s))"

definition firstConfirmed :: "(locator \<times> string, 'w) prog list \<Rightarrow> nat \<Rightarrow> 'w st \<Rightarrow> bool" where
  "firstConfirmed chain k s =
     (k < length chain \<and>
      (\<forall>j<k. \<not> confirmed (fst ((chain ! j) (afterFailed (take j chain) s)))) \<and>
      confirmed (fst ((chain ! k) (afterFailed (take k chain) s))))"

definition exhausted :: "(locator \<times> string, 'w) prog list \<Rightarrow> 'w st \<Rightarrow> bool" where
  "exhausted chain s =
     (\<forall>j<length chain. \<not> confirmed (fst ((chain ! j) (afterFailed (take j chain) s))))"

definition albumChain :: "'w site \<Rightarrow> (locator \<times> string, 'w) prog list" where
  "albumChain site = map (tryStrategy site) albumStrategies"

definition playChain :: "'w site \<Rightarrow> (locator \<times> string, 'w) prog list" where
  "playChain site =
     [playStrategy1 site, playStrategy2 site, playStrategy3 site (Some playByText) []]"

text \<open>
  \<open>allLapse site ls t s\<close>: the waits of \<open>t\<close> ms for the locators \<open>ls\<close>, made one after
  the other from \<open>s\<close>, all end without a visible element.
\<close>

fun allLapse :: "'w site \<Rightarrow> locator list \<Rightarrow> nat \<Rightarrow> 'w st \<Rightarrow> bool" where
  "allLapse site [] t s = True"
| "allLapse site (l # ls) t s =
     (\<not> isOK (fst (waitFor site l t s)) \<and> allLapse site ls t (snd (waitFor site l t s)))"



text \<open>
  A result is \<open>absorbed\<close> when it is no assertion failure: a normal return, or the
  end of the run on a call that hangs.
\<close>

definition absorbed :: "error + 'a \<Rightarrow> bool" where
  "absorbed r = (case r of Inr a \<Rightarrow> True | Inl e \<Rightarrow> fatal e)"


definition entered :: "'w st \<Rightarrow> 'w st \<Rightarrow> string list" where
  "entered s s' = drop (length (steps s)) (steps s')"

text \<open>
  \<open>emits P m\<close>: whatever the state, the program \<open>m\<close> leaves the list of entered steps
  as it is and adds to the trace only calls that satisfy \<open>P\<close>.
\<close>

definition emits :: "(call \<Rightarrow> bool) \<Rightarrow> ('a, 'w) prog \<Rightarrow> bool" where
  "emits P m =
     (\<forall>s. steps (snd (m s)) = steps s \<and>
          (\<exists>cs. trace (snd (m s)) = trace s @ cs \<and> list_all P cs))"



text \<open>
  The state in which the authentication step starts, and whether the prompt is
  observed there: whether the step's first wait, the 5000 ms wait for a visible element
  containing the target phrase, succeeds.
\<close>

definition beforeAuthentication :: "'w site \<Rightarrow> 'w st \<Rightarrow> (error + unit) \<times> 'w st" where
  "beforeAuthentication site = seq (beforeEach site) (runSteps (take 10 (journeySteps site)))"

definition promptObserved :: "'w site \<Rightarrow> 'w st \<Rightarrow> bool" where
  "promptObserved site s =
     isOK (fst (waitFor site portugueseAuthText 5000 (snd (beforeAuthentication site s))))"

section \<open>Example sites\<close>

definition el :: "nat \<Rightarrow> string \<Rightarrow> element" where
  "el i txt = \<lparr>el_id = i, el_text = Some txt, el_visible = True, el_enabled = True,
     el_editable = False, el_focused = False, el_value = [], el_attrs = []\<rparr>"

definition blankPage :: page where
  "blankPage = \<lparr>url = ''about:blank'', title = [], load_states = [], query = (\<lambda>l. [])\<rparr>"

definition loaded :: "string list" where
  "loaded = [''domcontentloaded'', ''load'', ''networkidle'']"

text \<open>A site that shows one page whatever is done to it.\<close>

definition fixedSite :: "page \<Rightarrow> unit site" where
  "fixedSite p = \<lparr>react = (\<lambda>c w. w), render = (\<lambda>w. p)\<rparr>"

definition start0 :: "unit st" where
  "start0 = \<lparr>world = (), trace = [], steps = []\<rparr>"

text \<open>
  Search results that show the title in capitals: the exact-text strategy, which
  compares case, misses it; the partial-text strategy, which does not, finds it.
\<close>

definition partialOnlyPage :: page where
  "partialOnlyPage = blankPage\<lparr>query := (\<lambda>l.
     if l = partialText \<or> l = GetByText albumTitle False then [el 1 ''THE DARK SIDE OF THE MOON'']
     else [])\<rparr>"

text \<open>
  Search results that show the album title twice (the album and a track of that name),
  inside two result cards.
\<close>

definition twoTitlesPage :: page where
  "twoTitlesPage = blankPage\<lparr>query := (\<lambda>l.
     if l = exactText \<or> l = partialText then [el 1 albumTitle, el 2 albumTitle]
     else if l = cardFallback then [el 3 albumTitle, el 4 albumTitle]
     else [])\<rparr>"

text \<open>
  An album page whose main Play button (element 1, above the tracklist) is the first
  Play button of the page, and whose tracklist holds one more Play button (element 2).
\<close>

definition albumWithTrackButtons :: page where
  "albumWithTrackButtons = blankPage\<lparr>query := (\<lambda>l.
     if l = GetByRole ''button'' (Some playName) then [el 1 ''Play'', el 2 ''Play'']
     else if l = Filter (Css ''button'') playName then [el 1 ''Play'', el 2 ''Play'']
     else if l = allButtons then [el 1 ''Play'', el 2 ''Play'']
     else if l = tracklistPlay then [el 2 ''Play'']
     else [])\<rparr>"

text \<open>
  Search results on which a click on the album entry changes nothing: the address stays
  that of the search.
\<close>

definition stuckResultsPage :: page where
  "stuckResultsPage = blankPage\<lparr>url := ''https://open.spotify.com/search/pink%20floyd'',
     load_states := loaded,
     query := (\<lambda>l. if l = exactText \<or> l = partialText \<or> l = GetByText albumTitle False
                     then [el 10 albumTitle] else [])\<rparr>"

text \<open>
  A site on which the click on the album entry leads to the album address, where the
  page has not rendered any content yet: no heading, no title, no text.
\<close>

definition untitledAlbumPage :: page where
  "untitledAlbumPage = blankPage\<lparr>url := ''https://open.spotify.com/album/4LH4d3cOWNNsVw41Gqt2kv'',
     load_states := loaded\<rparr>"

fun albumReact :: "call \<Rightarrow> bool \<Rightarrow> bool" where
  "albumReact (Click l) opened = True"
| "albumReact c opened = opened"

definition emptyAlbumSite :: "bool site" where
  "emptyAlbumSite =
     \<lparr>react = albumReact,
      render = (\<lambda>opened. if opened then untitledAlbumPage else stuckResultsPage)\<rparr>"

definition startResults :: "bool st" where
  "startResults = \<lparr>world = False, trace = [], steps = []\<rparr>"

text \<open>
  The home page in English with the language menu open, on a site where choosing
  Portuguese changes nothing. The option is labelled in English; nothing on the page
  matches the pattern of the Portuguese-text check. The button and the option both carry
  a test identifier that contains \<^verbatim>\<open>language\<close>.
\<close>

definition englishMenuPage :: page where
  "englishMenuPage = blankPage\<lparr>url := ''https://open.spotify.com/'', title := ''Spotify'',
     load_states := loaded,
     query := (\<lambda>l. if l = languageButton then [el 1 ''English'']
                     else if l = ptBROption then [el 2 ''Portuguese (Brazil)'']
                     else if l = languageDropdown
                       then [el 1 ''English'', el 2 ''Portuguese (Brazil)'']
                     else [])\<rparr>"

text \<open>The album page with track buttons, fully loaded.\<close>

definition loadedAlbumPage :: page where
  "loadedAlbumPage = albumWithTrackButtons\<lparr>load_states := loaded\<rparr>"

text \<open>
  A site that behaves as the journey expects up to the album page: the home page in
  English, the language menu, the home page in Portuguese, the focused search box, the
  results for the query, the album page. \<open>Played\<close> is the album page after Play was
  clicked; \<open>prompt\<close> is what the query for the target phrase, and for the two
  alternative phrases it contains, finds there. The header's \<^verbatim>\<open>Entrar\<close> button is on
  every Portuguese page. The language button and the search box also answer the broad
  selectors that match their test identifiers.
\<close>

datatype phase = Blank | Home | MenuOpen | HomePt | SearchFocused | Results | AlbumPage | Played

definition searchBox :: "bool \<Rightarrow> string \<Rightarrow> string \<Rightarrow> element" where
  "searchBox focused v ph = (el 3 [])\<lparr>el_editable := True, el_focused := focused, el_value := v,
     el_attrs := [(''placeholder'', ph)]\<rparr>"

definition homeQuery :: "bool \<Rightarrow> bool \<Rightarrow> bool \<Rightarrow> string \<Rightarrow> locator \<Rightarrow> element list" where
  "homeQuery pt menu focused v l =
     (let button = el 1 (if pt then ''Portugues do Brasil'' else ''English'');
          option = el 2 ''Portugues do Brasil'';
          box = searchBox focused v
                  (if pt then ''O que voce quer ouvir?'' else ''What do you want to play?'')
      in
      if l = languageButton then [button]
      else if l = searchInput then [box]
      else if l = ptBROption \<and> menu then [option]
      else if l = languageOptions \<and> menu then [option, el 4 ''English'']
      else if l = languageDropdown then (if menu then [button, option] else [button])
      else if l = searchSuggestions then [box]
      else if l = portugueseElements then
        (if pt then [el 5 ''Pesquisar'', el 6 ''Entrar'', button]
         else if menu then [option] else [])
      else if l = GetByText ''Entrar'' False \<and> pt then [el 6 ''Entrar'']
      else [])"

definition albumQuery :: "element list \<Rightarrow> locator \<Rightarrow> element list" where
  "albumQuery prompt l =
     (if l = Filter (Css ''h1'') (Regex albumTitle ''i'') then [el 11 albumTitle]
      else if l = exactText \<or> l = partialText \<or> l = GetByText albumTitle False
        then [el 11 albumTitle]
      else if l = GetByRole ''button'' (Some playName) then [el 20 ''Play'']
      else if l = Filter (Css ''button'') playName then [el 20 ''Play'']
      else if l = allButtons then [el 6 ''Entrar'', el 20 ''Play'', el 1 ''Portugues do Brasil'']
      else if l = albumElements then [el 11 albumTitle, el 12 []]
      else if l = portugueseAuthText \<or> l = GetByText ''conta gratuita'' False \<or>
              l = GetByText ''Escute'' False
        then prompt
      else homeQuery True False False [] l)"

definition resultsQuery :: "locator \<Rightarrow> element list" where
  "resultsQuery l =
     (if l = exactText then [el 10 albumTitle]
      else if l = partialText \<or> l = GetByText albumTitle False
        then [el 10 albumTitle, el 13 ''The Dark Side of the Moon (Live)'']
      else if l = searchSuggestions
        then [searchBox True searchQuery ''O que voce quer ouvir?'', el 14 []]
      else homeQuery True False True searchQuery l)"

fun demoRender :: "element list \<Rightarrow> phase \<Rightarrow> page" where
  "demoRender prompt Blank = blankPage"
| "demoRender prompt Home = \<lparr>url = ''https://open.spotify.com/'', title = ''Spotify'',
     load_states = loaded, query = homeQuery False False False []\<rparr>"
| "demoRender prompt MenuOpen = \<lparr>url = ''https://open.spotify.com/'', title = ''Spotify'',
     load_states = loaded, query = homeQuery False True False []\<rparr>"
| "demoRender prompt HomePt = \<lparr>url = ''https://open.spotify.com/'', title = ''Spotify'',
     load_states = loaded, query = homeQuery True False False []\<rparr>"
| "demoRender prompt SearchFocused = \<lparr>url = ''https://open.spotify.com/search'', title = ''Spotify'',
     load_states = loaded, query = homeQuery True False True []\<rparr>"
| "demoRender prompt Results = \<lparr>url = ''https://open.spotify.com/search/pink%20floyd'', title = ''Spotify'',
     load_states = loaded, query = resultsQuery\<rparr>"
| "demoRender prompt AlbumPage = \<lparr>url = ''https://open.spotify.com/album/4LH4d3cOWNNsVw41Gqt2kv'',
     title = ''Spotify'',
     load_states = loaded, query = albumQuery []\<rparr>"
| "demoRender prompt Played = \<lparr>url = ''https://open.spotify.com/album/4LH4d3cOWNNsVw41Gqt2kv'',
     title = ''Spotify'',
     load_states = loaded, query = albumQuery prompt\<rparr>"

fun demoReact :: "call \<Rightarrow> phase \<Rightarrow> phase" where
  "demoReact (Goto u) w = Home"
| "demoReact (Click l) w =
     (if l = languageButton \<and> w = Home then MenuOpen
      else if l = ptBROption \<and> w = MenuOpen then HomePt
      else if l = searchInput \<and> w = HomePt then SearchFocused
      else if l = exactText \<and> w = Results then AlbumPage
      else if (l = playByRole \<or> l = playByText) \<and> w = AlbumPage then Played
      else w)"
| "demoReact (Fill l v) w = (if l = searchInput \<and> v = searchQuery \<and> w = SearchFocused then Results else w)"
| "demoReact c w = w"

definition demoSite :: "element list \<Rightarrow> phase site" where
  "demoSite prompt = \<lparr>react = demoReact, render = demoRender prompt\<rparr>"

text \<open>
  \<open>leads m w w'\<close>: from any state of the run in which the site is in \<open>w\<close>, the
  program \<open>m\<close> returns without an error and leaves the site in \<open>w'\<close>.
\<close>

definition leads :: "(unit, 'w) prog \<Rightarrow> 'w \<Rightarrow> 'w \<Rightarrow> bool" where
  "leads m w w' = (\<forall>s. world s = w \<longrightarrow> fst (m s) = Inr () \<and> world (snd (m s)) = w')"

definition start :: "phase st" where
  "start = \<lparr>world = Blank, trace = [], steps = []\<rparr>"

section \<open>Facts about the combinators and the calls\<close>

lemma andThen_Inr: "m s = (Inr a, s') \<Longrightarrow> andThen m f s = f a s'"
  by (simp add: andThen_def)

lemma andThen_Inl: "m s = (Inl e, s') \<Longrightarrow> andThen m f s = (Inl e, s')"
  by (simp add: andThen_def)

lemma seq_Inr: "m s = (Inr a, s') \<Longrightarrow> seq m n s = n s'"
  by (simp add: seq_def andThen_def)

lemma seq_Inl: "m s = (Inl e, s') \<Longrightarrow> seq m n s = (Inl e, s')"
  by (simp add: seq_def andThen_def)

lemma try_catch_Inr: "m s = (Inr a, s') \<Longrightarrow> try_catch m h s = (Inr a, s')"
  by (simp add: try_catch_def)

lemma try_catch_Inl: "m s = (Inl e, s') \<Longrightarrow> \<not> fatal e \<Longrightarrow> try_catch m h s = h s'"
  by (simp add: try_catch_def)

lemma try_catch_confirmed: "confirmed (fst (m s)) \<Longrightarrow> try_catch m h s = m s"
  by (cases "m s") (auto simp: confirmed_def try_catch_def split: sum.splits)

text \<open>A bounded wait ends in one of three ways, and always with the call issued.\<close>

lemma await_result:
  "await site c lapse l P s = (Inr (), issue site c s) \<or>
   await site c lapse l P s = (Inl lapse, issue site c s) \<or>
   await site c lapse l P s = (Inl (StrictModeViolation c), issue site c s)"
  by (simp add: await_def Let_def the_one_def split: list.splits)

lemma waitFor_result:
  "waitFor site l t s = (Inr (), issue site (WaitFor l t) s) \<or>
   (\<exists>e. waitFor site l t s = (Inl e, issue site (WaitFor l t) s) \<and> \<not> fatal e)"
  using await_result [of site "WaitFor l t" "TimeoutError (WaitFor l t)" l el_visible s]
  by (auto simp: waitFor_def)

lemma expectVisible_result:
  "expectVisible site l s = (Inr (), issue site (ExpectVisible l) s) \<or>
   (\<exists>e. expectVisible site l s = (Inl e, issue site (ExpectVisible l) s) \<and> \<not> fatal e)"
  using await_result [of site "ExpectVisible l" "ExpectFailed (ExpectVisible l)" l el_visible s]
  by (auto simp: expectVisible_def)

lemma tryStrategy_result:
  "tryStrategy site (l, t, name) s = (Inr (l, name), issue site (WaitFor l t) s) \<or>
   (\<exists>e. tryStrategy site (l, t, name) s = (Inl e, issue site (WaitFor l t) s) \<and> \<not> fatal e)"
  using waitFor_result [of site l t s]
  by (auto simp: tryStrategy_def seq_def andThen_def ret_def)

lemma tryStrategy_skip:
  assumes "\<not> confirmed (fst (tryStrategy site (l, t, name) s))" and "name \<noteq> []"
  shows "try_catch (tryStrategy site (l, t, name)) h s = h (snd (tryStrategy site (l, t, name) s))"
  using tryStrategy_result [of site l t name s] assms
  by (auto simp: confirmed_def try_catch_def)

lemma playStrategy1_result:
  "(\<exists>s'. playStrategy1 site s = (Inr (playByRole, ''role-based main play button''), s')) \<or>
   (\<exists>e s'. playStrategy1 site s = (Inl e, s') \<and> \<not> fatal e)"
  by (auto simp: playStrategy1_def andThen_def count_def isVisible_def Let_def ret_def throw_def
        the_one_def split: list.splits)

lemma playStrategy1_skip:
  assumes "\<not> confirmed (fst (playStrategy1 site s))"
  shows "try_catch (playStrategy1 site) h s = h (snd (playStrategy1 site s))"
  using playStrategy1_result [of site s] assms
  by (auto simp: confirmed_def try_catch_def)

lemma playStrategy2_result:
  "(\<exists>s'. playStrategy2 site s = (Inr (playByText, ''text-based main play button''), s')) \<or>
   (\<exists>e s'. playStrategy2 site s = (Inl e, s') \<and> \<not> fatal e)"
  using expectVisible_result [of site playByText s]
  by (auto simp: playStrategy2_def seq_def andThen_def ret_def)

lemma playStrategy2_skip:
  assumes "\<not> confirmed (fst (playStrategy2 site s))"
  shows "try_catch (playStrategy2 site) h s = h (snd (playStrategy2 site s))"
  using playStrategy2_result [of site s] assms
  by (auto simp: confirmed_def try_catch_def)

text \<open>Unfolding sets for evaluating the model on an example site.\<close>

lemmas calls = await_def waitFor_def expectVisible_def expectEnabled_def expectEditable_def
  expectFocused_def expectValue_def waitForRace_def visibleFirst_def readEl_def textContent_def
  getAttribute_def isVisible_def count_def act_def click_def fill_def clear_def goto_def
  waitForLoadState_def expectURL_def expectTitle_def pageUrl_def screenshot_def clearCookies_def
  setViewportSize_def expectThat_def toBeTruthy_def trimmedLength_def toBeGreaterThan_def
  toMatch_def test_step_def the_one_def issue_def logCall_def seen_def ret_def throw_def
  andThen_def seq_def try_catch_def Let_def toLowerCase_def lowerCode_def trim_def isSpace_def

lemmas locators = languageButton_def languageDropdown_def languageOptions_def ptBROption_def
  portugueseElements_def searchInput_def searchQuery_def searchSuggestions_def albumTitle_def
  exactText_def partialText_def titleAttribute_def cardFallback_def albumPageIndicators_def
  playName_def tracklistArea_def tracklistPlay_def playByRole_def playByText_def allButtons_def
  targetPortugueseText_def portugueseAuthText_def alternativePortuguesePatterns_def
  albumElements_def

lemmas examples = fixedSite_def start0_def el_def blankPage_def loaded_def partialOnlyPage_def
  twoTitlesPage_def albumWithTrackButtons_def stuckResultsPage_def untitledAlbumPage_def
  englishMenuPage_def loadedAlbumPage_def emptyAlbumSite_def startResults_def demoSite_def
  start_def
  searchBox_def homeQuery_def albumQuery_def resultsQuery_def

lemma album_first:
  assumes "firstConfirmed (albumChain site) k s"
  shows "locateDarkSideAlbum site s = (albumChain site ! k) (afterFailed (take k (albumChain site)) s)"
proof -
  have k: "k < 4" using assms by (simp add: firstConfirmed_def albumChain_def albumStrategies_def)
  have no: "\<And>j. j < k \<Longrightarrow>
      \<not> confirmed (fst ((albumChain site ! j) (afterFailed (take j (albumChain site)) s)))"
    using assms by (simp add: firstConfirmed_def)
  have yes: "confirmed (fst ((albumChain site ! k) (afterFailed (take k (albumChain site)) s)))"
    using assms by (simp add: firstConfirmed_def)
  from k consider "k = 0" | "k = 1" | "k = 2" | "k = 3" by linarith
  then show ?thesis
  proof cases
    case 1
    with yes show ?thesis
      by (simp add: albumChain_def albumStrategies_def locateDarkSideAlbum_def try_catch_confirmed)
  next
    case 2
    with yes no [of 0] show ?thesis
      by (simp add: albumChain_def albumStrategies_def locateDarkSideAlbum_def
          try_catch_confirmed tryStrategy_skip)
  next
    case 3
    with yes no [of 0] no [of 1] show ?thesis
      by (simp add: albumChain_def albumStrategies_def locateDarkSideAlbum_def
          try_catch_confirmed tryStrategy_skip)
  next
    case 4
    with yes no [of 0] no [of 1] no [of 2] show ?thesis
      by (simp add: albumChain_def albumStrategies_def locateDarkSideAlbum_def
          try_catch_confirmed tryStrategy_skip numeral_3_eq_3)
  qed
qed

lemma play_first:
  assumes "firstConfirmed (playChain site) k s"
  shows "locateMainPlayButton site s = (playChain site ! k) (afterFailed (take k (playChain site)) s)"
proof -
  have k: "k < 3" using assms by (simp add: firstConfirmed_def playChain_def)
  have no: "\<And>j. j < k \<Longrightarrow>
      \<not> confirmed (fst ((playChain site ! j) (afterFailed (take j (playChain site)) s)))"
    using assms by (simp add: firstConfirmed_def)
  have yes: "confirmed (fst ((playChain site ! k) (afterFailed (take k (playChain site)) s)))"
    using assms by (simp add: firstConfirmed_def)
  from k consider "k = 0" | "k = 1" | "k = 2" by linarith
  then show ?thesis
  proof cases
    case 1
    with yes show ?thesis
      by (simp add: playChain_def locateMainPlayButton_def try_catch_confirmed)
  next
    case 2
    with yes no [of 0] show ?thesis
      by (simp add: playChain_def locateMainPlayButton_def try_catch_confirmed playStrategy1_skip)
  next
    case 3
    with yes no [of 0] no [of 1] show ?thesis
      by (simp add: playChain_def locateMainPlayButton_def try_catch_confirmed playStrategy1_skip
          playStrategy2_skip)
  qed
qed

lemma snd_tryStrategy: "snd (tryStrategy site (l, t, name) s) = issue site (WaitFor l t) s"
  using tryStrategy_result [of site l t name s] by auto

lemma trace_issue: "trace (issue site c s) = trace s @ [c]"
  by (simp add: issue_def)

lemma trace_afterFailed:
  "trace (afterFailed (map (tryStrategy site) xs) s) = trace s @ map (\<lambda>(l, t, name). WaitFor l t) xs"
proof (induction xs arbitrary: s)
  case Nil
  show ?case by simp
next
  case (Cons x xs)
  obtain l t name where x: "x = (l, t, name)" by (cases x) auto
  show ?case by (simp add: Cons.IH x snd_tryStrategy trace_issue)
qed

lemma album_first_value:
  assumes "firstConfirmed (albumChain site) k s"
  shows "fst (locateDarkSideAlbum site s) =
           Inr (fst (albumStrategies ! k), snd (snd (albumStrategies ! k)))"
proof -
  obtain l t name where x: "albumStrategies ! k = (l, t, name)" by (cases "albumStrategies ! k") auto
  have k: "k < length albumStrategies" using assms by (simp add: firstConfirmed_def albumChain_def)
  have "confirmed (fst (tryStrategy site (l, t, name) (afterFailed (take k (albumChain site)) s)))"
    using assms k x by (simp add: firstConfirmed_def albumChain_def)
  then have "fst (tryStrategy site (l, t, name) (afterFailed (take k (albumChain site)) s)) = Inr (l, name)"
    using tryStrategy_result [of site l t name "afterFailed (take k (albumChain site)) s"]
    by (auto simp: confirmed_def)
  then show ?thesis
    using album_first [OF assms] k x by (simp add: albumChain_def)
qed

lemma album_first_trace:
  assumes "firstConfirmed (albumChain site) k s"
  shows "trace (snd (locateDarkSideAlbum site s)) =
           trace s @ map (\<lambda>(l, t, name). WaitFor l t) (take (Suc k) albumStrategies)"
proof -
  obtain l t name where x: "albumStrategies ! k = (l, t, name)" by (cases "albumStrategies ! k") auto
  have k: "k < length albumStrategies" using assms by (simp add: firstConfirmed_def albumChain_def)
  have "locateDarkSideAlbum site s =
          tryStrategy site (l, t, name) (afterFailed (map (tryStrategy site) (take k albumStrategies)) s)"
    using album_first [OF assms] k x by (simp add: albumChain_def take_map)
  then show ?thesis
    using k x by (simp add: snd_tryStrategy trace_issue trace_afterFailed take_Suc_conv_app_nth)
qed

section \<open>The claims\<close>

text \<open>
  C1. For each of the two strategy chains (the album entry, the main play button): if
  some strategy confirms a visible element, the resolution returns what the first
  strategy that confirms returns, its locator and its name, and it ends in the state
  that strategy left. The calls issued are those of the strategies up to that one, so a
  strategy of lower priority is not evaluated once one has confirmed.
\<close>

theorem C1_first_confirmed_strategy_is_returned:
  "(firstConfirmed (albumChain site) k s \<longrightarrow>
      locateDarkSideAlbum site s = (albumChain site ! k) (afterFailed (take k (albumChain site)) s) \<and>
      fst (locateDarkSideAlbum site s) =
        Inr (fst (albumStrategies ! k), snd (snd (albumStrategies ! k))) \<and>
      trace (snd (locateDarkSideAlbum site s)) =
        trace s @ map (\<lambda>(l, t, name). WaitFor l t) (take (Suc k) albumStrategies)) \<and>
   (firstConfirmed (playChain site) k s \<longrightarrow>
      locateMainPlayButton site s = (playChain site ! k) (afterFailed (take k (playChain site)) s))"
proof (intro conjI impI)
  assume a: "firstConfirmed (albumChain site) k s"
  show "locateDarkSideAlbum site s = (albumChain site ! k) (afterFailed (take k (albumChain site)) s)"
    using a by (rule album_first)
  show "fst (locateDarkSideAlbum site s) =
        Inr (fst (albumStrategies ! k), snd (snd (albumStrategies ! k)))"
    using a by (rule album_first_value)
  show "trace (snd (locateDarkSideAlbum site s)) =
        trace s @ map (\<lambda>(l, t, name). WaitFor l t) (take (Suc k) albumStrategies)"
    using a by (rule album_first_trace)
next
  assume "firstConfirmed (playChain site) k s"
  then show "locateMainPlayButton site s = (playChain site ! k) (afterFailed (take k (playChain site)) s)"
    by (rule play_first)
qed

theorem C1_witness:
  "locateDarkSideAlbum (fixedSite partialOnlyPage) start0 =
     (Inr (partialText, ''partial text match''),
      \<lparr>world = (), trace = [WaitFor exactText 5000, WaitFor partialText 3000], steps = []\<rparr>) \<and>
   locateMainPlayButton (fixedSite albumWithTrackButtons) start0 =
     (Inr (playByText, ''text-based main play button''),
      \<lparr>world = (), trace = [Count tracklistPlay, IsVisible playByRole, ExpectVisible playByText],
        steps = []\<rparr>)"
proof -
  have a: "firstConfirmed (albumChain (fixedSite partialOnlyPage)) 1 start0"
    by (simp add: firstConfirmed_def albumChain_def albumStrategies_def tryStrategy_def
        confirmed_def calls locators examples)
  have p: "firstConfirmed (playChain (fixedSite albumWithTrackButtons)) 1 start0"
    by (simp add: firstConfirmed_def playChain_def playStrategy1_def playStrategy2_def
        confirmed_def calls locators examples)
  from a C1_first_confirmed_strategy_is_returned [of "fixedSite partialOnlyPage" 1 start0]
  have "locateDarkSideAlbum (fixedSite partialOnlyPage) start0 =
     (albumChain (fixedSite partialOnlyPage) ! 1)
       (afterFailed (take 1 (albumChain (fixedSite partialOnlyPage))) start0)"
    by simp
  moreover from p C1_first_confirmed_strategy_is_returned [of "fixedSite albumWithTrackButtons" 1 start0]
  have "locateMainPlayButton (fixedSite albumWithTrackButtons) start0 =
     (playChain (fixedSite albumWithTrackButtons) ! 1)
       (afterFailed (take 1 (playChain (fixedSite albumWithTrackButtons))) start0)"
    by simp
  ultimately show ?thesis
    by (simp add: albumChain_def albumStrategies_def tryStrategy_def playChain_def
        playStrategy1_def playStrategy2_def calls locators examples)
qed


lemma the_one_First:
  "the_one c p (First l) = (case resolve p l of [] \<Rightarrow> Inr None | e # es \<Rightarrow> Inr (Some e))"
  by (simp add: the_one_def split: list.splits)

lemma isVisible_First:
  "\<exists>b. isVisible site (First l) s = (Inr b, issue site (IsVisible (First l)) s)"
  by (auto simp: isVisible_def Let_def the_one_First split: list.splits)





text \<open>
  The play-button chain is different. The \<^verbatim>\<open>throw\<close> that follows the loop of
  strategy 3 is guarded by \<^verbatim>\<open>!mainPlayButton\<close>, and strategy 2 has assigned
  \<^verbatim>\<open>mainPlayButton\<close> before its assertion failed: the guard is never true. The
  errors strategy 3 can raise are those of its reads, and when its loop finds no button
  the resolution returns the locator of strategy 2 with an empty strategy name.
\<close>

lemma error_andThen:
  assumes "fst (andThen m f s) = Inl e"
  obtains "fst (m s) = Inl e" | a s' where "fst (f a s') = Inl e"
proof (cases "m s")
  case (Pair r s')
  show ?thesis
  proof (cases r)
    case (Inl e')
    with Pair assms have "fst (m s) = Inl e" by (simp add: andThen_def)
    then show ?thesis by (rule that(1))
  next
    case (Inr a)
    with Pair assms have "fst (f a s') = Inl e" by (simp add: andThen_def)
    then show ?thesis by (rule that(2))
  qed
qed

lemma textContent_errors:
  "fst (textContent site l s) = Inl e \<Longrightarrow> (\<exists>c. e = StrictModeViolation c \<or> e = Hung c)"
  by (auto simp: textContent_def readEl_def the_one_def Let_def
      split: list.splits sum.splits option.splits)

lemma isVisible_errors:
  "fst (isVisible site l s) = Inl e \<Longrightarrow> (\<exists>c. e = StrictModeViolation c \<or> e = Hung c)"
  by (auto simp: isVisible_def the_one_def Let_def split: list.splits sum.splits option.splits)

lemma scanButtons_errors:
  "fst (scanButtons site k i s) = Inl e \<Longrightarrow> (\<exists>c. e = StrictModeViolation c \<or> e = Hung c)"
proof (induction k arbitrary: i s)
  case 0
  then show ?case by (simp add: ret_def)
next
  case (Suc k)
  let ?b = "Nth allButtons i"
  let ?seen = "\<lambda>visible. if visible then ret (Some ?b) else scanButtons site k (Suc i)"
  let ?read = "\<lambda>buttonText. if map_option trim buttonText = Some ''Play''
                 then andThen (isVisible site ?b) ?seen else scanButtons site k (Suc i)"
  from Suc.prems have "fst (andThen (textContent site ?b) ?read s) = Inl e" by simp
  then show ?case
  proof (cases rule: error_andThen)
    case 1
    then show ?thesis by (rule textContent_errors)
  next
    case (2 buttonText s1)
    show ?thesis
    proof (cases "map_option trim buttonText = Some ''Play''")
      case False
      from 2 have "fst (scanButtons site k (Suc i) s1) = Inl e"
        unfolding if_not_P [OF False] .
      then show ?thesis by (rule Suc.IH)
    next
      case True
      from 2 have "fst (andThen (isVisible site ?b) ?seen s1) = Inl e"
        unfolding if_P [OF True] .
      then show ?thesis
      proof (cases rule: error_andThen)
        case 1
        then show ?thesis by (rule isVisible_errors)
      next
        case (2 visible s2)
        then have "fst (scanButtons site k (Suc i) s2) = Inl e"
          by (cases visible) (simp_all add: ret_def)
        then show ?thesis by (rule Suc.IH)
      qed
    qed
  qed
qed

lemma playStrategy3_never_throws:
  "fst (playStrategy3 site (Some button) name s) \<noteq>
     Inl (Thrown ''No suitable play button found with any strategy'')"
proof
  assume t: "fst (playStrategy3 site (Some button) name s) =
     Inl (Thrown ''No suitable play button found with any strategy'')"
  let ?s1 = "issue site (Count allButtons) s"
  let ?n = "length (resolve (seen site ?s1) allButtons)"
  show False
  proof (cases "scanButtons site ?n 0 ?s1")
    case (Pair r s2)
    show ?thesis
    proof (cases r)
      case (Inl e)
      with Pair t have "e = Thrown ''No suitable play button found with any strategy''"
        by (simp add: playStrategy3_def andThen_def count_def Let_def)
      moreover from Pair Inl have "fst (scanButtons site ?n 0 ?s1) = Inl e" by simp
      ultimately show False using scanButtons_errors by blast
    next
      case (Inr found)
      with Pair t show False
        by (cases found) (simp_all add: playStrategy3_def andThen_def count_def Let_def ret_def)
    qed
  qed
qed

lemma play_chain_exhausted_returns:
  "exhausted (playChain (fixedSite blankPage)) start0 \<and>
   fst (locateMainPlayButton (fixedSite blankPage) start0) = Inr (playByText, [])"
  by (simp add: exhausted_def playChain_def locateMainPlayButton_def playStrategy1_def
      playStrategy2_def playStrategy3_def confirmed_def calls locators examples All_less_Suc)

text \<open>
  C6. The claim fails on the album chain: none of its four locators ends in
  \<^verbatim>\<open>first()\<close>, and the wait is strict. On search results that show the title twice,
  both visible, the first strategy does not pick the first of the two: every strategy
  whose locator matches two elements raises a strictness violation, and the one of the
  last strategy leaves the resolution as an error.
\<close>

theorem C6_ambiguous_match_is_an_error:
  "map el_id (resolve twoTitlesPage exactText) = [1, 2] \<and>
   list_all el_visible (resolve twoTitlesPage exactText) \<and>
   fst (tryStrategy (fixedSite twoTitlesPage) (exactText, 5000, ''exact text match'') start0) =
     Inl (StrictModeViolation (WaitFor exactText 5000)) \<and>
   fst (locateDarkSideAlbum (fixedSite twoTitlesPage) start0) =
     Inl (StrictModeViolation (WaitFor cardFallback 3000))"
  by (simp add: locateDarkSideAlbum_def tryStrategy_def calls locators examples)

text \<open>
  C10. Strategy 1 of the play-button resolution counts the Play buttons inside the
  tracklist area and is rejected whenever that count is positive; the candidate it
  holds, the first Play button of the whole page, plays no part in the count. The
  resolution then goes on with strategies 2 and 3 and never reports the role-based
  strategy.
\<close>

theorem C10_tracklist_button_rejects_strategy1:
  assumes "0 < length (resolve (seen site (issue site (Count tracklistPlay) s)) tracklistPlay)"
  shows "\<not> confirmed (fst (playStrategy1 site s)) \<and>
         locateMainPlayButton site s =
           try_catch (playStrategy2 site) (playStrategy3 site (Some playByText) [])
             (issue site (IsVisible playByRole) (issue site (Count tracklistPlay) s)) \<and>
         (\<forall>l. fst (locateMainPlayButton site s) \<noteq> Inr (l, ''role-based main play button''))"
proof -
  let ?s2 = "issue site (IsVisible playByRole) (issue site (Count tracklistPlay) s)"
  have s1: "playStrategy1 site s = (Inl (Thrown ''Main play button not found by role''), ?s2)"
    using assms isVisible_First [of site "GetByRole ''button'' (Some playName)"
        "issue site (Count tracklistPlay) s"]
    by (auto simp: playStrategy1_def andThen_def count_def Let_def throw_def playByRole_def)
  then have run: "locateMainPlayButton site s =
      try_catch (playStrategy2 site) (playStrategy3 site (Some playByText) []) ?s2"
    by (simp add: locateMainPlayButton_def try_catch_def)
  have s3: "\<And>s' l. fst (playStrategy3 site (Some playByText) [] s') \<noteq>
                Inr (l, ''role-based main play button'')"
    by (auto simp: playStrategy3_def andThen_def count_def Let_def ret_def
        split: sum.splits prod.splits option.splits)
  have "\<And>l. fst (try_catch (playStrategy2 site) (playStrategy3 site (Some playByText) []) ?s2) \<noteq>
                Inr (l, ''role-based main play button'')"
    using playStrategy2_result [of site ?s2] s3 by (auto simp: try_catch_def)
  with s1 run show ?thesis by (simp add: confirmed_def)
qed

theorem C10_witness:
  "map el_id (resolve albumWithTrackButtons playByRole) = [1] \<and>
   list_all el_visible (resolve albumWithTrackButtons playByRole) \<and>
   map el_id (resolve albumWithTrackButtons tracklistPlay) = [2] \<and>
   fst (playStrategy1 (fixedSite albumWithTrackButtons) start0) =
     Inl (Thrown ''Main play button not found by role'') \<and>
   fst (locateMainPlayButton (fixedSite albumWithTrackButtons) start0) =
     Inr (playByText, ''text-based main play button'')"
proof -
  have pos: "0 < length (resolve (seen (fixedSite albumWithTrackButtons)
      (issue (fixedSite albumWithTrackButtons) (Count tracklistPlay) start0)) tracklistPlay)"
    by (simp add: calls locators examples)
  from C10_tracklist_button_rejects_strategy1 [OF pos]
  have "locateMainPlayButton (fixedSite albumWithTrackButtons) start0 =
           try_catch (playStrategy2 (fixedSite albumWithTrackButtons))
             (playStrategy3 (fixedSite albumWithTrackButtons) (Some playByText) [])
             (issue (fixedSite albumWithTrackButtons) (IsVisible playByRole)
                (issue (fixedSite albumWithTrackButtons) (Count tracklistPlay) start0))"
    by simp
  then show ?thesis
    by (simp add: playStrategy1_def playStrategy2_def calls locators examples)
qed

section \<open>What a program adds to the trace\<close>

named_theorems emits_intros

lemma emits_ret [emits_intros]: "emits P (ret a)"
  by (simp add: emits_def ret_def)

lemma emits_throw [emits_intros]: "emits P (throw e)"
  by (simp add: emits_def throw_def)

lemma emits_andThen [emits_intros]:
  assumes m: "emits P m" and f: "\<And>a. emits P (f a)"
  shows "emits P (andThen m f)"
  unfolding emits_def
proof (intro allI)
  fix s
  from m obtain cs where ms: "steps (snd (m s)) = steps s" "trace (snd (m s)) = trace s @ cs"
      "list_all P cs"
    unfolding emits_def by blast
  show "steps (snd (andThen m f s)) = steps s \<and>
        (\<exists>cs. trace (snd (andThen m f s)) = trace s @ cs \<and> list_all P cs)"
  proof (cases "m s")
    case (Pair r s')
    show ?thesis
    proof (cases r)
      case (Inl e)
      with Pair ms show ?thesis by (auto simp: andThen_def)
    next
      case (Inr a)
      from f [of a] obtain ds where fs: "steps (snd (f a s')) = steps s'"
          "trace (snd (f a s')) = trace s' @ ds" "list_all P ds"
        unfolding emits_def by blast
      from Pair Inr ms fs have "steps (snd (andThen m f s)) = steps s"
        and "trace (snd (andThen m f s)) = trace s @ (cs @ ds)" and "list_all P (cs @ ds)"
        by (auto simp: andThen_def)
      then show ?thesis by blast
    qed
  qed
qed

lemma emits_seq [emits_intros]: "emits P m \<Longrightarrow> emits P n \<Longrightarrow> emits P (seq m n)"
  unfolding seq_def by (rule emits_andThen)

lemma emits_try_catch [emits_intros]:
  assumes m: "emits P m" and h: "emits P h"
  shows "emits P (try_catch m h)"
  unfolding emits_def
proof (intro allI)
  fix s
  from m obtain cs where ms: "steps (snd (m s)) = steps s" "trace (snd (m s)) = trace s @ cs"
      "list_all P cs"
    unfolding emits_def by blast
  from h obtain ds where hs: "steps (snd (h (snd (m s)))) = steps (snd (m s))"
      "trace (snd (h (snd (m s)))) = trace (snd (m s)) @ ds" "list_all P ds"
    unfolding emits_def by blast
  have "try_catch m h s = m s \<or> try_catch m h s = h (snd (m s))"
    by (cases "m s") (auto simp: try_catch_def split: sum.splits)
  then show "steps (snd (try_catch m h s)) = steps s \<and>
        (\<exists>cs. trace (snd (try_catch m h s)) = trace s @ cs \<and> list_all P cs)"
  proof
    assume "try_catch m h s = m s"
    with ms show ?thesis by auto
  next
    assume "try_catch m h s = h (snd (m s))"
    with ms hs have "steps (snd (try_catch m h s)) = steps s"
      and "trace (snd (try_catch m h s)) = trace s @ (cs @ ds)" and "list_all P (cs @ ds)"
      by auto
    then show ?thesis by blast
  qed
qed

lemma emits_block_Nil [emits_intros]: "emits P (block [])"
  by (simp add: emits_ret)

lemma emits_block_Cons [emits_intros]: "emits P m \<Longrightarrow> emits P (block ms) \<Longrightarrow> emits P (block (m # ms))"
  by (simp add: emits_seq)

lemma emits_if [emits_intros]: "emits P m \<Longrightarrow> emits P n \<Longrightarrow> emits P (if b then m else n)"
  by simp

lemma emits_case_prod [emits_intros]: "(\<And>a b. emits P (f a b)) \<Longrightarrow> emits P (case x of (a, b) \<Rightarrow> f a b)"
  by (cases x) simp

lemma emits_case_option [emits_intros]:
  "emits P m \<Longrightarrow> (\<And>a. emits P (f a)) \<Longrightarrow> emits P (case x of None \<Rightarrow> m | Some a \<Rightarrow> f a)"
  by (cases x) simp_all

lemma emits_issued:
  assumes "P c" and "\<And>s. snd (m s) = issue site c s"
  shows "emits P m"
  unfolding emits_def
proof (intro allI conjI)
  fix s
  show "steps (snd (m s)) = steps s" by (simp add: assms(2) issue_def)
  from assms show "\<exists>cs. trace (snd (m s)) = trace s @ cs \<and> list_all P cs"
    by (intro exI [of _ "[c]"]) (simp add: issue_def)
qed

lemma snd_await: "snd (await site c lapse l Q s) = issue site c s"
  using await_result [of site c lapse l Q s] by auto

lemma emits_waitFor [emits_intros]: "P (WaitFor l t) \<Longrightarrow> emits P (waitFor site l t)"
  by (rule emits_issued [where site = site]) (simp_all add: waitFor_def snd_await)

lemma emits_expectVisible [emits_intros]: "P (ExpectVisible l) \<Longrightarrow> emits P (expectVisible site l)"
  by (rule emits_issued [where site = site]) (simp_all add: expectVisible_def snd_await)

lemma emits_expectEnabled [emits_intros]: "P (ExpectEnabled l) \<Longrightarrow> emits P (expectEnabled site l)"
  by (rule emits_issued [where site = site]) (simp_all add: expectEnabled_def snd_await)

lemma emits_expectEditable [emits_intros]: "P (ExpectEditable l) \<Longrightarrow> emits P (expectEditable site l)"
  by (rule emits_issued [where site = site]) (simp_all add: expectEditable_def snd_await)

lemma emits_expectFocused [emits_intros]: "P (ExpectFocused l) \<Longrightarrow> emits P (expectFocused site l)"
  by (rule emits_issued [where site = site]) (simp_all add: expectFocused_def snd_await)

lemma emits_expectValue [emits_intros]: "P (ExpectValue l v) \<Longrightarrow> emits P (expectValue site l v)"
  by (rule emits_issued [where site = site]) (simp_all add: expectValue_def snd_await)

lemma snd_waitForRace:
  "snd (waitForRace site l1 l2 t s) = issue site (WaitForRace (First l1) (First l2) t) s"
  by (simp add: waitForRace_def Let_def)

lemma emits_waitForRace [emits_intros]:
  "P (WaitForRace (First l1) (First l2) t) \<Longrightarrow> emits P (waitForRace site l1 l2 t)"
  by (rule emits_issued [where site = site]) (simp_all add: snd_waitForRace)

lemma snd_readEl: "snd (readEl site c l f s) = issue site c s"
  by (simp add: readEl_def Let_def split: sum.splits option.splits)

lemma emits_textContent [emits_intros]: "P (TextContent l) \<Longrightarrow> emits P (textContent site l)"
  by (rule emits_issued [where site = site]) (simp_all add: textContent_def snd_readEl)

lemma emits_getAttribute [emits_intros]: "P (GetAttribute l n) \<Longrightarrow> emits P (getAttribute site l n)"
  by (rule emits_issued [where site = site]) (simp_all add: getAttribute_def snd_readEl)

lemma snd_isVisible: "snd (isVisible site l s) = issue site (IsVisible l) s"
  by (simp add: isVisible_def Let_def split: sum.splits option.splits)

lemma emits_isVisible [emits_intros]: "P (IsVisible l) \<Longrightarrow> emits P (isVisible site l)"
  by (rule emits_issued [where site = site]) (simp_all add: snd_isVisible)

lemma emits_count [emits_intros]: "P (Count l) \<Longrightarrow> emits P (count site l)"
  by (rule emits_issued [where site = site]) (simp_all add: count_def Let_def)

lemma emits_goto [emits_intros]: "P (Goto u) \<Longrightarrow> emits P (goto site u)"
  by (rule emits_issued [where site = site]) (simp_all add: goto_def Let_def)

lemma emits_waitForLoadState [emits_intros]:
  "P (WaitForLoadState x) \<Longrightarrow> emits P (waitForLoadState site x)"
  by (rule emits_issued [where site = site]) (simp_all add: waitForLoadState_def Let_def)

lemma emits_expectURL [emits_intros]: "P (ExpectURL pat) \<Longrightarrow> emits P (expectURL site pat)"
  by (rule emits_issued [where site = site]) (simp_all add: expectURL_def Let_def)

lemma emits_expectTitle [emits_intros]: "P (ExpectTitle pat) \<Longrightarrow> emits P (expectTitle site pat)"
  by (rule emits_issued [where site = site]) (simp_all add: expectTitle_def Let_def)

lemma emits_pageUrl [emits_intros]: "P PageUrl \<Longrightarrow> emits P (pageUrl site)"
  by (rule emits_issued [where site = site]) (simp_all add: pageUrl_def Let_def)

lemma emits_screenshot [emits_intros]: "P (Screenshot path) \<Longrightarrow> emits P (screenshot site path)"
  by (rule emits_issued [where site = site]) (simp_all add: screenshot_def)

lemma emits_clearCookies [emits_intros]: "P ClearCookies \<Longrightarrow> emits P (clearCookies site)"
  by (rule emits_issued [where site = site]) (simp_all add: clearCookies_def)

lemma emits_setViewportSize [emits_intros]:
  "P (SetViewportSize w h) \<Longrightarrow> emits P (setViewportSize site w h)"
  by (rule emits_issued [where site = site]) (simp_all add: setViewportSize_def)

lemma emits_expectThat [emits_intros]: "emits P (expectThat b what)"
  by (simp add: expectThat_def emits_ret emits_throw)

lemma trace_act: "trace (snd (act site c l ready s)) = trace s @ [c]"
  by (simp add: act_def issue_def logCall_def split: sum.splits option.splits)

lemma steps_act: "steps (snd (act site c l ready s)) = steps s"
  by (simp add: act_def issue_def logCall_def split: sum.splits option.splits)

lemma emits_act: "P c \<Longrightarrow> emits P (act site c l ready)"
  unfolding emits_def by (auto simp: trace_act steps_act)

lemma emits_click [emits_intros]: "P (Click l) \<Longrightarrow> emits P (click site l)"
  by (simp add: click_def emits_act)

lemma emits_fill [emits_intros]: "P (Fill l v) \<Longrightarrow> emits P (fill site l v)"
  by (simp add: fill_def emits_act)

lemma emits_clear [emits_intros]: "P (Clear l) \<Longrightarrow> emits P (clear site l)"
  by (simp add: clear_def emits_act)

lemma emits_attempt [emits_intros]: "emits P m \<Longrightarrow> emits P (attempt m)"
  unfolding attempt_def by (intro emits_intros)











section \<open>The order of the steps\<close>

lemma runSteps_append:
  "runSteps (xs @ ys) s =
     (case runSteps xs s of (Inl e, s') \<Rightarrow> (Inl e, s') | (Inr u, s') \<Rightarrow> runSteps ys s')"
proof (induction xs arbitrary: s)
  case Nil
  show ?case by (simp add: ret_def)
next
  case (Cons x xs)
  obtain name body where x: "x = (name, body)" by (cases x) auto
  show ?case
    by (simp add: x seq_def andThen_def Cons.IH split: prod.splits sum.splits)
qed










section \<open>Soft checks\<close>

lemma waitFor_lapse_caught:
  assumes "\<not> isOK (fst (waitFor site l t s))"
  shows "try_catch (seq (waitFor site l t) n) h s = h (snd (waitFor site l t s))"
proof -
  from waitFor_result [of site l t s] assms obtain e
    where "waitFor site l t s = (Inl e, issue site (WaitFor l t) s)" and "\<not> fatal e"
    by (auto simp: isOK_def)
  then show ?thesis by (simp add: try_catch_def seq_def andThen_def)
qed

lemma block_lapse_caught:
  assumes "\<not> isOK (fst (waitFor site l t s))"
  shows "try_catch (block (waitFor site l t # ms)) h s = h (snd (waitFor site l t s))"
  using assms by (simp add: waitFor_lapse_caught)

lemma attempt_lapse:
  assumes "\<not> isOK (fst (waitFor site l t s))"
  shows "attempt (waitFor site l t) s = (Inr False, snd (waitFor site l t s))"
  using assms by (simp add: attempt_def waitFor_lapse_caught ret_def)

lemma confirmAlbumPage_lapse:
  "allLapse site ls 2000 s \<Longrightarrow> fst (confirmAlbumPage site ls s) = Inr False"
proof (induction ls arbitrary: s)
  case Nil
  show ?case by (simp add: ret_def)
next
  case (Cons l ls)
  then show ?case by (simp add: waitFor_lapse_caught)
qed

lemma findAlternative_lapse:
  "allLapse site (map (\<lambda>p. GetByText p False) ps) 1000 s \<Longrightarrow>
   fst (findAlternative site found ps s) = Inr found"
proof (induction ps arbitrary: s)
  case Nil
  show ?case by (simp add: ret_def)
next
  case (Cons p ps)
  then show ?case by (simp add: attempt_lapse andThen_def)
qed

lemma albumPageCheck_url:
  assumes "\<not> containsStr ''/album/'' (url (seen site (issue site PageUrl s)))"
  shows "fst (albumPageCheck site s) = Inl (AssertionFailed ''currentUrl contains /album/'')"
  using assms
  by (simp add: albumPageCheck_def seq_def andThen_def pageUrl_def Let_def expectThat_def throw_def)

lemma albumPageCheck_soft:
  assumes "containsStr ''/album/'' (url (seen site (issue site PageUrl s)))"
    and "allLapse site albumPageIndicators 2000 (issue site PageUrl s)"
  shows "fst (albumPageCheck site s) = Inr ()"
proof -
  obtain s' where c: "confirmAlbumPage site albumPageIndicators (issue site PageUrl s) = (Inr False, s')"
    using confirmAlbumPage_lapse [OF assms(2)]
    by (cases "confirmAlbumPage site albumPageIndicators (issue site PageUrl s)") auto
  show ?thesis
    using assms(1) c
    by (simp add: albumPageCheck_def seq_def andThen_def pageUrl_def Let_def expectThat_def
        ret_def screenshot_def)
qed

text \<open>
  C9. In the step that clicks the album, once the click and the wait for the network
  have gone through: if the address read after them does not contain \<^verbatim>\<open>/album/\<close>,
  the step fails with that assertion; if it does, and none of the four title indicators
  becomes visible within its 2000 ms, the step passes.
\<close>

theorem C9_url_mandatory_title_soft:
  assumes "isOK (fst (openAlbum site s))"
  shows "(\<not> containsStr ''/album/'' (url (seen site (issue site PageUrl (snd (openAlbum site s))))) \<longrightarrow>
            fst (clickAlbum site s) = Inl (AssertionFailed ''currentUrl contains /album/'')) \<and>
         (containsStr ''/album/'' (url (seen site (issue site PageUrl (snd (openAlbum site s))))) \<and>
          allLapse site albumPageIndicators 2000 (issue site PageUrl (snd (openAlbum site s))) \<longrightarrow>
            fst (clickAlbum site s) = Inr ())"
proof -
  obtain u s' where o: "openAlbum site s = (Inr u, s')"
    using assms by (cases "openAlbum site s") (auto simp: isOK_def split: sum.splits)
  then have step: "fst (clickAlbum site s) = fst (albumPageCheck site s')"
    by (cases "albumPageCheck site s'")
       (auto simp: clickAlbum_def seq_def andThen_def ret_def split: sum.splits)
  show ?thesis
    using albumPageCheck_url [of site s'] albumPageCheck_soft [of site s'] o step by simp
qed

theorem C9_witness:
  "fst (clickAlbum (fixedSite stuckResultsPage) start0) =
     Inl (AssertionFailed ''currentUrl contains /album/'') \<and>
   fst (clickAlbum emptyAlbumSite startResults) = Inr ()"
proof -
  have o1: "isOK (fst (openAlbum (fixedSite stuckResultsPage) start0))"
    by (simp add: openAlbum_def isOK_def calls locators examples)
  have u1: "\<not> containsStr ''/album/'' (url (seen (fixedSite stuckResultsPage)
      (issue (fixedSite stuckResultsPage) PageUrl (snd (openAlbum (fixedSite stuckResultsPage) start0)))))"
    by (simp add: calls examples)
  have o: "openAlbum emptyAlbumSite startResults =
      (Inr (), \<lparr>world = True,
         trace = [Screenshot ''evidence/10-before-clicking-album.png'', ExpectVisible exactText,
                  ExpectEnabled exactText, Click exactText, WaitForLoadState ''networkidle''],
         steps = []\<rparr>)"
    by (simp add: openAlbum_def calls locators examples)
  then have o2: "isOK (fst (openAlbum emptyAlbumSite startResults))"
    by (simp add: isOK_def)
  have u2: "containsStr ''/album/'' (url (seen emptyAlbumSite
      (issue emptyAlbumSite PageUrl (snd (openAlbum emptyAlbumSite startResults)))))"
    by (simp add: o) (simp add: calls examples)
  have l2: "allLapse emptyAlbumSite albumPageIndicators 2000
      (issue emptyAlbumSite PageUrl (snd (openAlbum emptyAlbumSite startResults)))"
    by (simp add: o) (simp add: isOK_def calls locators examples)
  from C9_url_mandatory_title_soft [OF o1] u1 C9_url_mandatory_title_soft [OF o2] u2 l2
  show ?thesis by blast
qed

lemma suggestionsCheck_passes: "fst (suggestionsCheck site s) = Inr ()"
  using waitFor_result [of site "First searchSuggestions" 2000 s]
  by (auto simp: suggestionsCheck_def try_catch_def seq_def andThen_def ret_def count_def
      screenshot_def Let_def)

lemma typeSearchQuery_outcome: "fst (typeSearchQuery site s) = fst (enterQuery site s)"
proof (cases "enterQuery site s")
  case (Pair r s')
  show ?thesis
  proof (cases r)
    case (Inl e)
    with Pair show ?thesis by (simp add: typeSearchQuery_def seq_def andThen_def)
  next
    case (Inr u)
    obtain s'' where "suggestionsCheck site s' = (Inr (), s'')"
      using suggestionsCheck_passes [of site s'] by (cases "suggestionsCheck site s'") auto
    with Pair Inr show ?thesis by (simp add: typeSearchQuery_def seq_def andThen_def ret_def)
  qed
qed

lemma openLanguageMenu_outcome: "fst (openLanguageMenu site s) = fst (click site languageButton s)"
proof (cases "click site languageButton s")
  case (Pair r s')
  show ?thesis
  proof (cases r)
    case (Inl e)
    with Pair show ?thesis by (simp add: openLanguageMenu_def seq_def andThen_def)
  next
    case (Inr u)
    with Pair show ?thesis
      by (simp add: openLanguageMenu_def seq_def andThen_def ret_def try_catch_def
          waitForRace_def count_def screenshot_def Let_def)
  qed
qed

lemma portugueseTextCheck_lapse:
  assumes "\<not> isOK (fst (waitFor site (First portugueseElements) 5000 s))"
  shows "fst (portugueseTextCheck site s) = Inr ()"
  using assms by (simp add: portugueseTextCheck_def waitFor_lapse_caught ret_def)

lemma authenticationCheck_lapse:
  assumes "\<not> isOK (fst (waitFor site portugueseAuthText 5000 s))"
    and "allLapse site (map (\<lambda>p. GetByText p False) alternativePortuguesePatterns) 1000
           (snd (waitFor site portugueseAuthText 5000 s))"
  shows "fst (authenticationCheck site s) = Inr ()"
proof -
  let ?s1 = "snd (waitFor site portugueseAuthText 5000 s)"
  obtain s' where f: "findAlternative site False alternativePortuguesePatterns ?s1 = (Inr False, s')"
    using findAlternative_lapse [OF assms(2), of False]
    by (cases "findAlternative site False alternativePortuguesePatterns ?s1") auto
  have "fst (authenticationCheck site s) =
          fst (block [seq (findAlternative site False alternativePortuguesePatterns) (ret ()),
                      screenshot site ''evidence/14-authentication-state-analysis.png''] ?s1)"
    using assms(1) by (simp add: authenticationCheck_def waitFor_lapse_caught)
  also have "\<dots> = Inr ()"
    using f by (simp add: seq_def andThen_def ret_def screenshot_def)
  finally show ?thesis .
qed

text \<open>
  C5. Every soft sub-check of the test absorbs its own miss. The outcome of the step
  that types the query is the outcome of entering the query, whatever the wait for
  suggestions gives; the outcome of opening the language menu is the outcome of the
  click, whatever the wait for the menu gives. When the wait of a soft check lapses, the
  check returns without an error: the Portuguese-text check, the loop over the album-page
  title indicators, the loop over the alternative Portuguese phrases, and with them the
  whole authentication step, which then passes.
\<close>

theorem C5_soft_misses_are_absorbed:
  "fst (typeSearchQuery site s) = fst (enterQuery site s) \<and>
   fst (suggestionsCheck site s) = Inr () \<and>
   fst (openLanguageMenu site s) = fst (click site languageButton s) \<and>
   (\<not> isOK (fst (waitFor site (First portugueseElements) 5000 s)) \<longrightarrow>
      fst (portugueseTextCheck site s) = Inr ()) \<and>
   (allLapse site albumPageIndicators 2000 s \<longrightarrow>
      fst (confirmAlbumPage site albumPageIndicators s) = Inr False) \<and>
   (allLapse site (map (\<lambda>p. GetByText p False) alternativePortuguesePatterns) 1000 s \<longrightarrow>
      fst (findAlternative site found alternativePortuguesePatterns s) = Inr found) \<and>
   (\<not> isOK (fst (waitFor site portugueseAuthText 5000 s)) \<and>
    allLapse site (map (\<lambda>p. GetByText p False) alternativePortuguesePatterns) 1000
      (snd (waitFor site portugueseAuthText 5000 s)) \<longrightarrow>
      fst (authenticationCheck site s) = Inr ())"
  using typeSearchQuery_outcome [of site s] suggestionsCheck_passes [of site s]
    openLanguageMenu_outcome [of site s] portugueseTextCheck_lapse [of site s]
    confirmAlbumPage_lapse [of site albumPageIndicators s]
    findAlternative_lapse [of site alternativePortuguesePatterns s found]
    authenticationCheck_lapse [of site s]
  by blast

theorem C5_witness:
  "fst (portugueseTextCheck (fixedSite blankPage) start0) = Inr () \<and>
   fst (confirmAlbumPage (fixedSite blankPage) albumPageIndicators start0) = Inr False \<and>
   fst (findAlternative (fixedSite blankPage) False alternativePortuguesePatterns start0) = Inr False \<and>
   fst (authenticationCheck (fixedSite blankPage) start0) = Inr ()"
proof -
  have w1: "\<not> isOK (fst (waitFor (fixedSite blankPage) (First portugueseElements) 5000 start0))"
    by (simp add: isOK_def calls locators examples)
  have w2: "allLapse (fixedSite blankPage) albumPageIndicators 2000 start0"
    by (simp add: isOK_def calls locators examples)
  have w3: "allLapse (fixedSite blankPage)
      (map (\<lambda>p. GetByText p False) alternativePortuguesePatterns) 1000 start0"
    by (simp add: isOK_def calls locators examples)
  have w4: "\<not> isOK (fst (waitFor (fixedSite blankPage) portugueseAuthText 5000 start0))"
    by (simp add: isOK_def calls locators examples)
  have w5: "allLapse (fixedSite blankPage)
      (map (\<lambda>p. GetByText p False) alternativePortuguesePatterns) 1000
      (snd (waitFor (fixedSite blankPage) portugueseAuthText 5000 start0))"
    by (simp add: isOK_def calls locators examples)
  from C5_soft_misses_are_absorbed [of "fixedSite blankPage" start0 False] w1 w2 w3 w4 w5
  show ?thesis by blast
qed

text \<open>
  C7 (as amended). In the step that validates the language change, the mandatory part is
  that the language button is visible and its text can be read. The check for Portuguese
  text is soft: when no Portuguese text becomes visible within 5000 ms, the outcome of
  the step is the outcome of the language-button check alone.
\<close>

theorem C7_portuguese_text_is_a_soft_check:
  assumes "\<not> isOK (fst (waitFor site (First portugueseElements) 5000
                        (snd (languageButtonCheck site s))))"
  shows "fst (validateLanguageChange site s) = fst (languageButtonCheck site s)"
proof (cases "languageButtonCheck site s")
  case (Pair r s')
  show ?thesis
  proof (cases r)
    case (Inl e)
    with Pair show ?thesis by (simp add: validateLanguageChange_def seq_def andThen_def)
  next
    case (Inr u)
    from assms Pair have "fst (portugueseTextCheck site s') = Inr ()"
      by (simp add: portugueseTextCheck_lapse)
    then obtain s'' where "portugueseTextCheck site s' = (Inr (), s'')"
      by (cases "portugueseTextCheck site s'") auto
    with Pair Inr show ?thesis
      by (simp add: validateLanguageChange_def seq_def andThen_def ret_def screenshot_def)
  qed
qed

theorem C7_witness:
  "fst (validateLanguageChange (fixedSite englishMenuPage) start0) = Inr ()"
proof -
  have "\<not> isOK (fst (waitFor (fixedSite englishMenuPage) (First portugueseElements) 5000
                        (snd (languageButtonCheck (fixedSite englishMenuPage) start0))))"
    by (simp add: isOK_def calls locators examples)
  from C7_portuguese_text_is_a_soft_check [OF this] show ?thesis
    by (simp add: languageButtonCheck_def calls locators examples)
qed

text \<open>
  C7 as stated fails: on a site where the Portuguese option is found and clicked but the
  page stays in English, no Portuguese text is visible after the selection, and the two
  steps (select, validate) pass all the same.
\<close>

theorem C7_counterexample:
  "resolve englishMenuPage ptBROption \<noteq> [] \<and>
   resolve englishMenuPage portugueseElements = [] \<and>
   fst (seq (selectPortuguese (fixedSite englishMenuPage))
            (validateLanguageChange (fixedSite englishMenuPage)) start0) = Inr () \<and>
   Click ptBROption \<in> set (trace (snd (seq (selectPortuguese (fixedSite englishMenuPage))
            (validateLanguageChange (fixedSite englishMenuPage)) start0)))"
  by (simp add: selectPortuguese_def validateLanguageChange_def languageButtonCheck_def
      portugueseTextCheck_def calls locators examples)

section \<open>The authentication step\<close>

lemma absorbed_try_catch:
  assumes "\<And>s'. absorbed (fst (h s'))"
  shows "absorbed (fst (try_catch m h s))"
  using assms [of "snd (m s)"]
  by (cases "m s") (auto simp: try_catch_def absorbed_def split: sum.splits)

lemma absorbed_andThen:
  assumes "absorbed (fst (m s))" and "\<And>a s'. absorbed (fst (f a s'))"
  shows "absorbed (fst (andThen m f s))"
proof (cases "m s")
  case (Pair r s')
  show ?thesis
  proof (cases r)
    case (Inl e)
    with assms(1) Pair show ?thesis by (simp add: andThen_def absorbed_def)
  next
    case (Inr a)
    with assms(2) [of a s'] Pair show ?thesis by (simp add: andThen_def)
  qed
qed

lemma absorbed_attempt: "absorbed (fst (attempt m s))"
  unfolding attempt_def by (rule absorbed_try_catch) (simp add: ret_def absorbed_def)

lemma absorbed_findAlternative: "absorbed (fst (findAlternative site found ps s))"
proof (induction ps arbitrary: found s)
  case Nil
  show ?case by (simp add: ret_def absorbed_def)
next
  case (Cons p ps)
  show ?case
    unfolding findAlternative.simps
  proof (rule absorbed_andThen [OF absorbed_attempt])
    fix waited and s' :: "'a st"
    let ?read = "attempt (seq (textContent site (GetByText p False)) (ret ()))"
    let ?next = "\<lambda>read. if read then ret True else findAlternative site True ps"
    have "absorbed (fst (andThen ?read ?next s'))"
    proof (rule absorbed_andThen [OF absorbed_attempt])
      fix read and s'' :: "'a st"
      show "absorbed (fst (?next read s''))"
        by (cases read) (simp add: ret_def absorbed_def, simp add: Cons.IH)
    qed
    then show "absorbed (fst ((if \<not> waited then findAlternative site found ps
                               else andThen ?read ?next) s'))"
      by (cases waited) (simp_all add: Cons.IH)
  qed
qed

lemma absorbed_screenshot: "absorbed (fst (screenshot site path s))"
  by (simp add: screenshot_def absorbed_def)

lemma absorbed_authenticationCheck: "absorbed (fst (authenticationCheck site s))"
  unfolding authenticationCheck_def
proof (rule absorbed_try_catch)
  fix s'
  show "absorbed (fst (block
         [seq (findAlternative site False alternativePortuguesePatterns) (ret ()),
          screenshot site ''evidence/14-authentication-state-analysis.png''] s'))"
    unfolding block.simps seq_def
    by (intro absorbed_andThen absorbed_findAlternative absorbed_screenshot)
       (simp_all add: ret_def absorbed_def)
qed

text \<open>
  C3 (as amended). The authentication step raises no assertion failure: whether or not a
  visible prompt containing the target phrase, or any of the alternative phrases, is
  observed, the step returns without an error, unless a text read with no timeout hangs
  on an element that has gone. So the outcome Verified does not depend on observing the
  prompt.
\<close>

theorem C3_authentication_step_never_fails_an_assertion:
  "fst (authenticationCheck site s) = Inr () \<or>
   (\<exists>c. fst (authenticationCheck site s) = Inl (Hung c))"
proof (cases "fst (authenticationCheck site s)")
  case (Inr u)
  then show ?thesis by simp
next
  case (Inl e)
  with absorbed_authenticationCheck [of site s] have "fatal e" by (simp add: absorbed_def)
  then obtain c where "e = Hung c" by (cases e) auto
  with Inl show ?thesis by simp
qed

lemma journey_split:
  "journey site s =
     (case beforeAuthentication site s of
        (Inl e, s') \<Rightarrow> (Inl e, s')
      | (Inr u, s') \<Rightarrow> runSteps (drop 10 (journeySteps site)) s')"
proof -
  have "runSteps (journeySteps site) =
          runSteps (take 10 (journeySteps site) @ drop 10 (journeySteps site))"
    by simp
  then show ?thesis
    unfolding journey_def beforeAuthentication_def runSteps_append
    by (auto simp: seq_def andThen_def split: prod.splits sum.splits)
qed

lemmas stepDefs = beforeEach_def navigateToHomepage_def validateLanguageButton_def
  openLanguageMenu_def selectPortuguese_def languageButtonCheck_def portugueseTextCheck_def
  validateLanguageChange_def focusSearchInput_def enterQuery_def suggestionsCheck_def
  typeSearchQuery_def tryStrategy_def locateDarkSideAlbum_def locateAlbumInResults_def
  openAlbum_def albumPageCheck_def clickAlbum_def playStrategy1_def playStrategy2_def
  playStrategy3_def locateMainPlayButton_def preparePlay_def clickPlayButton_def attempt_def
  authenticationCheck_def finalValidation_def

lemma leads_seq: "leads m w w' \<Longrightarrow> leads n w' w'' \<Longrightarrow> leads (seq m n) w w''"
  unfolding leads_def
  by (auto simp: seq_def andThen_def split: prod.splits sum.splits)

lemma leads_test_step: "leads m w w' \<Longrightarrow> leads (test_step name m) w w'"
  by (simp add: leads_def test_step_def)

lemma leads_runSteps_Nil: "leads (runSteps []) w w"
  by (simp add: leads_def ret_def)

lemma leads_runSteps_Cons:
  "leads m w w' \<Longrightarrow> leads (runSteps rest) w' w'' \<Longrightarrow> leads (runSteps ((name, m) # rest)) w w''"
  unfolding runSteps.simps by (rule leads_seq) (rule leads_test_step)

lemma demo_beforeEach: "leads (beforeEach (demoSite p)) Blank Blank"
  unfolding leads_def by (simp add: stepDefs calls examples)

lemma demo_navigate: "leads (navigateToHomepage (demoSite p)) Blank Home"
  unfolding leads_def by (simp add: stepDefs calls locators examples)

lemma demo_button: "leads (validateLanguageButton (demoSite p)) Home Home"
  unfolding leads_def by (simp add: stepDefs calls locators examples)

lemma demo_menu: "leads (openLanguageMenu (demoSite p)) Home MenuOpen"
  unfolding leads_def by (simp add: stepDefs calls locators examples)

lemma demo_select: "leads (selectPortuguese (demoSite p)) MenuOpen HomePt"
  unfolding leads_def by (simp add: stepDefs calls locators examples)

lemma demo_validate: "leads (validateLanguageChange (demoSite p)) HomePt HomePt"
  unfolding leads_def by (simp add: stepDefs calls locators examples)

lemma demo_focus: "leads (focusSearchInput (demoSite p)) HomePt SearchFocused"
  unfolding leads_def by (simp add: stepDefs calls locators examples)

lemma demo_type: "leads (typeSearchQuery (demoSite p)) SearchFocused Results"
  unfolding leads_def by (simp add: stepDefs calls locators examples)

lemma demo_locate: "leads (locateAlbumInResults (demoSite p)) Results Results"
  unfolding leads_def by (simp add: stepDefs calls locators examples)

lemma demo_album: "leads (clickAlbum (demoSite p)) Results AlbumPage"
  unfolding leads_def by (simp add: stepDefs calls locators examples)

lemma demo_play: "leads (clickPlayButton (demoSite p)) AlbumPage Played"
  unfolding leads_def by (simp add: stepDefs calls locators examples)

lemma demo_authentication: "leads (authenticationCheck (demoSite [])) Played Played"
  unfolding leads_def by (simp add: stepDefs calls locators examples)

lemma demo_final: "leads (finalValidation (demoSite p)) Played Played"
  unfolding leads_def by (simp add: stepDefs calls locators examples)

lemma demo_reaches_play: "leads (beforeAuthentication (demoSite p)) Blank Played"
  unfolding beforeAuthentication_def journeySteps_def
  by (simp del: runSteps.simps)
     (rule leads_seq [OF demo_beforeEach] leads_runSteps_Cons leads_runSteps_Nil demo_navigate
        demo_button demo_menu demo_select demo_validate demo_focus demo_type demo_locate
        demo_album demo_play)+

lemma demo_after_play: "leads (runSteps (drop 10 (journeySteps (demoSite [])))) Played Played"
  unfolding journeySteps_def
  by (simp del: runSteps.simps)
     (rule leads_runSteps_Cons leads_runSteps_Nil demo_authentication demo_final)+

lemma demo_no_prompt:
  assumes "world s = Played"
  shows "\<not> isOK (fst (waitFor (demoSite []) portugueseAuthText 5000 s))"
  using assms by (simp add: isOK_def calls locators examples)

text \<open>
  C3 as stated fails: on a site that serves the whole journey and shows no prompt after
  Play is clicked, the first wait of the authentication step finds nothing, the loop
  over the alternative phrases stops at the header's \<^verbatim>\<open>Entrar\<close> button, and the
  run passes.
\<close>

theorem C3_counterexample:
  "fst (journey (demoSite []) start) = Inr () \<and> \<not> promptObserved (demoSite []) start"
proof -
  have "world start = Blank" by (simp add: start_def)
  with demo_reaches_play [of "[]"]
  have "fst (beforeAuthentication (demoSite []) start) = Inr () \<and>
        world (snd (beforeAuthentication (demoSite []) start)) = Played"
    unfolding leads_def by blast
  then obtain s' where b: "beforeAuthentication (demoSite []) start = (Inr (), s')" "world s' = Played"
    by (cases "beforeAuthentication (demoSite []) start") auto
  from b demo_after_play have "fst (journey (demoSite []) start) = Inr ()"
    by (simp add: journey_split leads_def)
  moreover from b demo_no_prompt [of s'] have "\<not> promptObserved (demoSite []) start"
    by (simp add: promptObserved_def)
  ultimately show ?thesis by simp
qed

text \<open>
  The same site with the prompt shown after Play: the prompt is observed and the run
  passes as well.
\<close>

lemma demo_authentication_prompt:
  "leads (authenticationCheck (demoSite [el 30 targetPortugueseText])) Played Played"
  unfolding leads_def by (simp add: stepDefs calls locators examples)

lemma demo_with_prompt_passes:
  "fst (journey (demoSite [el 30 targetPortugueseText]) start) = Inr () \<and>
   promptObserved (demoSite [el 30 targetPortugueseText]) start"
proof -
  let ?site = "demoSite [el 30 targetPortugueseText]"
  have "world start = Blank" by (simp add: start_def)
  with demo_reaches_play [of "[el 30 targetPortugueseText]"]
  have "fst (beforeAuthentication ?site start) = Inr () \<and>
        world (snd (beforeAuthentication ?site start)) = Played"
    unfolding leads_def by blast
  then obtain s' where b: "beforeAuthentication ?site start = (Inr (), s')" "world s' = Played"
    by (cases "beforeAuthentication ?site start") auto
  have "leads (runSteps (drop 10 (journeySteps ?site))) Played Played"
    unfolding journeySteps_def
    by (simp del: runSteps.simps)
       (rule leads_runSteps_Cons leads_runSteps_Nil demo_authentication_prompt demo_final)+
  with b have "fst (journey ?site start) = Inr ()"
    by (simp add: journey_split leads_def)
  moreover from b have "promptObserved ?site start"
    by (simp add: promptObserved_def isOK_def calls locators examples)
  ultimately show ?thesis by simp
qed

end
